theory Spec2Isabelle
  imports Complex_Main
begin

section \<open>OscConnection: a shallow embedding of \<^verbatim>\<open>src/main/OscConnection.ts\<close>\<close>

text \<open>
  The file under \<^verbatim>\<open>src/\<close> holds two revisions of \<^verbatim>\<open>OscConnection.ts\<close>; the
  embedding follows the second one (the class decorated with \<^verbatim>\<open>@Service()\<close>), which is
  the revision with \<^verbatim>\<open>receivedParamValue\<close>, \<^verbatim>\<open>updateBulk\<close> and \<^verbatim>\<open>parsePort\<close>.

  JavaScript runs every event handler and every stretch of an \<^verbatim>\<open>async\<close> function
  between two \<^verbatim>\<open>await\<close>s to completion. Each such stretch is one function from state
  to state below; the answers of the collaborators (the trusted-address service, the
  configuration, the discovery service, the clock) are inputs of the stretch that asks.
  A call on a collaborator (the logger, the sockets, the query server) is recorded in a
  trace and taken to return; the listeners of the events the connection emits are
  taken not to call it back while it emits.
\<close>

subsection \<open>JavaScript values\<close>

text \<open>
  A value of type \<^verbatim>\<open>unknown\<close>. The type \<open>'n\<close> stands for \<^verbatim>\<open>number\<close>: JavaScript numbers
  are IEEE-754 doubles, whose \<open>+\<close>, \<open>-\<close> and \<open>abs\<close> satisfy none of the laws of a ring,
  so the functions below ask of \<open>'n\<close> only that these operations and \<open>0\<close> exist, and no
  proof about them uses a law of arithmetic. \<open>JObject\<close> is any other object (a blob, a
  colour), known by its identity.
\<close>

datatype 'n jsval =
    JUndefined
  | JNull
  | JNumber 'n
  | JBoolean bool
  | JString string
  | JObject nat

text \<open>\<^verbatim>\<open>typeof v == 'number'\<close>\<close>

fun is_number :: "'n jsval \<Rightarrow> bool" where
  "is_number (JNumber x) = True"
| "is_number v = False"

subsection \<open>The value cell: class \<^verbatim>\<open>OscValue\<close>\<close>

text \<open>The private fields \<^verbatim>\<open>value\<close> (here \<open>val\<close>) and \<^verbatim>\<open>delta\<close>.\<close>

record 'n OscValue =
  val :: "'n jsval"
  delta :: 'n

text \<open>\<^verbatim>\<open>new OscValue()\<close>: \<^verbatim>\<open>value = undefined\<close>, \<^verbatim>\<open>delta = 0\<close>.\<close>

definition new_OscValue :: "'n::zero OscValue" where
  "new_OscValue = \<lparr>val = JUndefined, delta = 0\<rparr>"

definition clearDelta :: "'n::zero OscValue \<Rightarrow> 'n OscValue" where
  "clearDelta c = c\<lparr>delta := 0\<rparr>"

text \<open>
  \<^verbatim>\<open>receivedUpdate(newValue)\<close>. The result is the cell after the call, with the
  arguments of the \<^verbatim>\<open>'change'\<close> event the cell emits (old value, new value).
\<close>

definition receivedUpdate ::
  "'n jsval \<Rightarrow> ('n::{plus,minus,abs}) OscValue \<Rightarrow> 'n OscValue \<times> ('n jsval \<times> 'n jsval)" where
  "receivedUpdate newValue c =
     (let oldValue = val c;
          c1 = (case (oldValue, newValue) of
                  (JNumber old, JNumber new) \<Rightarrow> c\<lparr>delta := delta c + \<bar>new - old\<bar>\<rparr>
                | _ \<Rightarrow> c)
      in (c1\<lparr>val := newValue\<rparr>, (oldValue, newValue)))"

definition get :: "'n OscValue \<Rightarrow> 'n jsval" where
  "get c = val c"

definition getDelta :: "'n OscValue \<Rightarrow> 'n" where
  "getDelta c = delta c"

subsection \<open>The strings and numbers that \<^verbatim>\<open>parsePort\<close> and the proxy loop read\<close>

text \<open>
  A JavaScript string is a sequence of UTF-16 code units. The strings that
  \<^verbatim>\<open>parsePort\<close> and the proxy loop take apart are lists of code units here, each a
  number below 65536; \<open>units\<close> gives the code units of a string of ASCII characters.
  The names, paths and addresses elsewhere in the class are only compared, prefixed and
  joined, and stay of type \<open>string\<close>.
\<close>

type_synonym jstring = "nat list"

definition units :: "string \<Rightarrow> jstring" where
  "units s = map of_char s"

text \<open>
  The white space and the line terminators of ECMAScript, which \<^verbatim>\<open>trim\<close> and
  \<^verbatim>\<open>parseInt\<close> skip: tab, line feed, vertical tab, form feed, carriage return, space,
  no-break space, U+1680, U+2000 to U+200A, U+2028, U+2029, U+202F, U+205F, U+3000 and
  U+FEFF.
\<close>

definition is_ws :: "nat \<Rightarrow> bool" where
  "is_ws c =
     (c \<in> set [0x09, 0x0A, 0x0B, 0x0C, 0x0D, 0x20, 0xA0, 0x1680, 0x2028, 0x2029, 0x202F,
                0x205F, 0x3000, 0xFEFF]
      \<or> (0x2000 \<le> c \<and> c \<le> 0x200A))"

text \<open>\<^verbatim>\<open>s.trim()\<close>\<close>

definition js_trim :: "jstring \<Rightarrow> jstring" where
  "js_trim s = rev (dropWhile is_ws (rev (dropWhile is_ws s)))"

text \<open>
  \<^verbatim>\<open>s.split(sep)\<close> for a separator of one code unit: the pieces between the
  separators, empty pieces kept; the empty string gives one empty piece.
\<close>

fun js_split :: "nat \<Rightarrow> jstring \<Rightarrow> jstring list" where
  "js_split sep [] = [[]]"
| "js_split sep (c # cs) =
     (if c = sep then [] # js_split sep cs
      else (case js_split sep cs of
              w # ws \<Rightarrow> (c # w) # ws
            | [] \<Rightarrow> [[c]]))"

text \<open>\<^verbatim>\<open>s.includes(c)\<close> for one code unit.\<close>

definition js_includes :: "nat \<Rightarrow> jstring \<Rightarrow> bool" where
  "js_includes c s = (c \<in> set s)"

text \<open>
  The value of a code unit as a digit in a radix, if it is one: \<^verbatim>\<open>0\<close>-\<^verbatim>\<open>9\<close>, then
  the letters of either case from ten on.
\<close>

definition digit_of :: "nat \<Rightarrow> nat \<Rightarrow> nat option" where
  "digit_of radix n =
     (let d = (if 48 \<le> n \<and> n \<le> 57 then Some (n - 48)
               else if 97 \<le> n \<and> n \<le> 122 then Some (n - 87)
               else if 65 \<le> n \<and> n \<le> 90 then Some (n - 55)
               else None)
      in case d of
           Some v \<Rightarrow> if v < radix then Some v else None
         | None \<Rightarrow> None)"

text \<open>The longest prefix of digits, read as a number in the radix; \<open>None\<close> when it is empty.\<close>

fun digits_value :: "nat \<Rightarrow> nat \<Rightarrow> bool \<Rightarrow> jstring \<Rightarrow> nat option" where
  "digits_value radix acc seen [] = (if seen then Some acc else None)"
| "digits_value radix acc seen (c # cs) =
     (case digit_of radix c of
        Some d \<Rightarrow> digits_value radix (acc * radix + d) True cs
      | None \<Rightarrow> (if seen then Some acc else None))"

text \<open>
  The numbers \<^verbatim>\<open>parseInt\<close> returns. A whole number of magnitude below \<open>2^53\<close> is a
  double as it stands (\<open>Whole\<close>; the two zeros are one here, no caller tells them
  apart). From \<open>2^53\<close> on the double is the mathematical value rounded, or an
  infinity: \<open>Beyond neg\<close> is such a double, of magnitude at least \<open>2^53\<close> and negative
  when \<open>neg\<close>, whose digits are not modelled.
\<close>

datatype js_number = NaN | Whole int | Beyond bool

text \<open>\<^verbatim>\<open>x > 0\<close>\<close>

fun positive :: "js_number \<Rightarrow> bool" where
  "positive NaN = False"
| "positive (Whole n) = (n > 0)"
| "positive (Beyond neg) = (\<not> neg)"

text \<open>
  \<^verbatim>\<open>parseInt(s)\<close> with no radix (ECMAScript, \<^verbatim>\<open>parseInt(string, radix)\<close>): leading white
  space is skipped, a sign is read, a prefix \<^verbatim>\<open>0x\<close> or \<^verbatim>\<open>0X\<close> selects radix 16, and the
  longest prefix of digits is the value; with no digit the result is \<^verbatim>\<open>NaN\<close>.
\<close>

definition js_parseInt :: "jstring \<Rightarrow> js_number" where
  "js_parseInt inputString =
     (let s = dropWhile is_ws inputString;
          neg = (case s of c # r \<Rightarrow> c = of_char CHR ''-'' | [] \<Rightarrow> False);
          s1 = (case s of
                  c # r \<Rightarrow> if c = of_char CHR ''-'' \<or> c = of_char CHR ''+'' then r else s
                | [] \<Rightarrow> s);
          hex = (case s1 of
                   a # b # r \<Rightarrow> a = of_char CHR ''0'' \<and> (b = of_char CHR ''x'' \<or> b = of_char CHR ''X'')
                 | _ \<Rightarrow> False);
          radix = (if hex then 16 else 10);
          s2 = (if hex then drop 2 s1 else s1)
      in case digits_value radix 0 False s2 of
           None \<Rightarrow> NaN
         | Some m \<Rightarrow>
             if m < 2 ^ 53 then Whole (if neg then - int m else int m) else Beyond neg)"

subsection \<open>\<^verbatim>\<open>OscConnection.parsePort\<close>\<close>

text \<open>
  \<^verbatim>\<open>parsePort(inputObj, defAddress, defPort)\<close>; \<open>None\<close> is \<^verbatim>\<open>undefined\<close>. After
  \<^verbatim>\<open>input.includes(':')\<close> the split has at least two pieces, so \<^verbatim>\<open>split[0]!\<close> and
  \<^verbatim>\<open>split[1]!\<close> are strings; the last case of the match is never reached.
\<close>

definition parsePort :: "jstring option \<Rightarrow> jstring \<Rightarrow> js_number \<Rightarrow> jstring \<times> js_number" where
  "parsePort inputObj defAddress defPort =
     (let input0 = (case inputObj of None \<Rightarrow> [] | Some i \<Rightarrow> i);
          (outAddress, input) =
             (if js_includes (of_char CHR '':'') input0
              then (case js_split (of_char CHR '':'') input0 of
                      a # b # r \<Rightarrow> (a, b)
                    | _ \<Rightarrow> (defAddress, input0))
              else (defAddress, input0));
          parsedPort = js_parseInt input;
          outPort = (if parsedPort \<noteq> NaN \<and> positive parsedPort then parsedPort else defPort)
      in (outAddress, outPort))"

subsection \<open>Messages, nodes, errors\<close>

text \<open>A thrown value or the reason of a rejected promise.\<close>

datatype exn = Error string

text \<open>
  An argument of an OSC message read with \<^verbatim>\<open>metadata: true\<close>, and of a node of the
  discovery service: \<^verbatim>\<open>{type, value}\<close>. A missing \<^verbatim>\<open>value\<close> is \<open>JUndefined\<close>.
\<close>

record 'n OscArg =
  arg_type :: string
  arg_value :: "'n jsval"

record 'n OscMessage =
  address :: string
  args :: "'n OscArg list option"

text \<open>\<^verbatim>\<open>RemoteInfo\<close> of \<^verbatim>\<open>dgram\<close>.\<close>

record RemoteInfo =
  rinfo_address :: string
  rinfo_family :: string
  rinfo_port :: nat
  rinfo_size :: nat

text \<open>\<^verbatim>\<open>OSCMethodDescription\<close>: the fields \<^verbatim>\<open>_updateBulk\<close> reads.\<close>

record 'n OSCMethodDescription =
  full_path :: "string option"
  arguments :: "'n OscArg list option"

text \<open>\<^verbatim>\<open>xs?.[0]?.value\<close>\<close>

definition first_value :: "'n OscArg list option \<Rightarrow> 'n jsval" where
  "first_value xs = (case xs of None \<Rightarrow> JUndefined | Some [] \<Rightarrow> JUndefined | Some (a # r) \<Rightarrow> arg_value a)"

type_synonym buffer = "char list"

subsection \<open>What the connection does to the world\<close>

text \<open>
  The calls on collaborators and the events emitted, in the order they happen. An
  object (a socket, a query server) is known by the number it got when it was made.
\<close>

datatype logpart = LStr string | LNum nat | LErr exn

datatype 'n emitted =
    EvAdd string "'n OscValue"
  | EvClear
  | EvChange string "'n jsval" "'n jsval"

datatype 'n effect =
    Emit "'n emitted"
  | Log "logpart list"
  | GetPort nat
  | QueryNew nat nat
  | QueryAddMethod nat string
  | QueryStart nat
  | QueryStop nat
  | SocketNew nat nat
  | SocketOpen nat
  | SocketClose nat
  | SocketSend nat "'n OscMessage" string nat
  | UdpSend buffer int jstring
  | GetBulk nat

text \<open>What a timer runs when it fires.\<close>

datatype timer_kind =
    RetryOpenSocket
  | BulkTimeout nat
  | BulkBackoff nat
  | ActivityInterval

text \<open>
  Where an \<^verbatim>\<open>async\<close> function waits: \<^verbatim>\<open>openSocketUnsafe\<close> for the free port, then
  for \<^verbatim>\<open>oscQuery.start()\<close> (with its local \<^verbatim>\<open>port\<close>); \<^verbatim>\<open>_updateBulk\<close> for the race of
  \<^verbatim>\<open>getBulk()\<close> against its time-out (the attempt's token and the time-out's timer).
\<close>

datatype await =
    AwaitPort
  | AwaitStart nat
  | AwaitBulk nat nat

subsection \<open>The state of an \<^verbatim>\<open>OscConnection\<close>\<close>

text \<open>
  The fields of the class, then what the runtime holds for it: \<open>receivedOne\<close> is the
  variable of that name in the closure of each socket's handlers (one per socket made),
  \<open>timers\<close> the pending timers (handle, delay, what to run), \<open>suspended\<close> the
  \<^verbatim>\<open>await\<close>s not yet resumed, \<open>nextTimer\<close> and \<open>nextObject\<close> the next fresh timer
  handle and object identity, \<open>trace\<close> the effects so far. The attempt token
  \<^verbatim>\<open>{}\<close> of \<^verbatim>\<open>updateBulk\<close> is a fresh object, compared by identity.
\<close>

record 'n OscConnection =
  entries :: "string \<rightharpoonup> 'n OscValue"
  recentlyRcvdOscCmds :: nat
  lastReceiveTime :: nat
  oscQuery :: "nat option"
  oscSocket :: "nat option"
  socketopen :: bool
  retryTimeout :: "nat option"
  lastPacket :: nat
  port :: nat
  waitingForBulk :: bool
  updateBulkAttempt :: "nat option"
  receivedOne :: "nat \<Rightarrow> bool"
  timers :: "(nat \<times> nat \<times> timer_kind) list"
  suspended :: "await list"
  nextTimer :: nat
  nextObject :: nat
  trace :: "'n effect list"

definition effect :: "'n effect \<Rightarrow> 'n OscConnection \<Rightarrow> 'n OscConnection" where
  "effect e s = s\<lparr>trace := trace s @ [e]\<rparr>"

definition logger_log :: "logpart list \<Rightarrow> 'n OscConnection \<Rightarrow> 'n OscConnection" where
  "logger_log parts s = effect (Log parts) s"

definition emit :: "'n emitted \<Rightarrow> 'n OscConnection \<Rightarrow> 'n OscConnection" where
  "emit e s = effect (Emit e) s"

text \<open>\<^verbatim>\<open>setTimeout(f, ms)\<close> gives a fresh handle; \<^verbatim>\<open>clearTimeout(h)\<close> of \<^verbatim>\<open>undefined\<close> or of a
  handle no longer pending does nothing.\<close>

definition setTimeout :: "timer_kind \<Rightarrow> nat \<Rightarrow> 'n OscConnection \<Rightarrow> nat \<times> 'n OscConnection" where
  "setTimeout k ms s =
     (nextTimer s, s\<lparr>timers := timers s @ [(nextTimer s, ms, k)], nextTimer := Suc (nextTimer s)\<rparr>)"

definition clearTimeout :: "nat option \<Rightarrow> 'n OscConnection \<Rightarrow> 'n OscConnection" where
  "clearTimeout h s =
     (case h of
        None \<Rightarrow> s
      | Some i \<Rightarrow> s\<lparr>timers := filter (\<lambda>t. fst t \<noteq> i) (timers s)\<rparr>)"

definition suspend :: "await \<Rightarrow> 'n OscConnection \<Rightarrow> 'n OscConnection" where
  "suspend a s = s\<lparr>suspended := suspended s @ [a]\<rparr>"

subsection \<open>The parameter store\<close>

definition clearValues :: "'n OscConnection \<Rightarrow> 'n OscConnection" where
  "clearValues s = emit EvClear (s\<lparr>entries := Map.empty\<rparr>)"

text \<open>
  \<^verbatim>\<open>receivedParamValue(param, rawValue, onlyUseIfNew)\<close>. The cell's \<^verbatim>\<open>'change'\<close> event is
  recorded with the name of the cell; for a new cell it comes before \<^verbatim>\<open>'add'\<close>, as in
  the source.
\<close>

definition receivedParamValue ::
  "string option \<Rightarrow> 'n jsval \<Rightarrow> bool \<Rightarrow> ('n::{plus,minus,abs,zero}) OscConnection \<Rightarrow> 'n OscConnection" where
  "receivedParamValue param rawValue onlyUseIfNew s =
     (case param of
        None \<Rightarrow> s
      | Some p \<Rightarrow>
          if rawValue = JUndefined then s
          else (case entries s p of
                  None \<Rightarrow>
                    (let (c, (ov, nv)) = receivedUpdate rawValue new_OscValue;
                         s1 = s\<lparr>entries := (entries s)(p \<mapsto> c)\<rparr>
                     in emit (EvAdd p c) (emit (EvChange p ov nv) s1))
                | Some c0 \<Rightarrow>
                    if onlyUseIfNew then s
                    else (let (c, (ov, nv)) = receivedUpdate rawValue c0;
                              s1 = s\<lparr>entries := (entries s)(p \<mapsto> c)\<rparr>
                          in emit (EvChange p ov nv) s1)))"

definition parseParamFromPath :: "string \<Rightarrow> string option" where
  "parseParamFromPath path =
     (if take (length ''/avatar/parameters/'') path = ''/avatar/parameters/''
      then Some (drop (length ''/avatar/parameters/'') path)
      else None)"

definition clearDeltas :: "('n::zero) OscConnection \<Rightarrow> 'n OscConnection" where
  "clearDeltas s = s\<lparr>entries := (\<lambda>k. map_option clearDelta (entries s k))\<rparr>"

subsection \<open>Bulk reconciliation: \<^verbatim>\<open>updateBulk\<close> and \<^verbatim>\<open>_updateBulk\<close>\<close>

text \<open>\<^verbatim>\<open>isStillValid = () => this.updateBulkAttempt == myAttempt\<close>\<close>

definition isStillValid :: "nat \<Rightarrow> 'n OscConnection \<Rightarrow> bool" where
  "isStillValid myAttempt s = (updateBulkAttempt s = Some myAttempt)"

text \<open>
  \<^verbatim>\<open>_updateBulk\<close> up to its \<^verbatim>\<open>await\<close>: \<^verbatim>\<open>getBulk()\<close> is called, the time-out of
  10000 ms is set, and the function waits for the race of the two.
\<close>

definition updateBulk_request :: "nat \<Rightarrow> 'n OscConnection \<Rightarrow> 'n OscConnection" where
  "updateBulk_request myAttempt s =
     (let s1 = effect (GetBulk myAttempt) s;
          (t, s2) = setTimeout (BulkTimeout myAttempt) 10000 s1
      in suspend (AwaitBulk myAttempt t) s2)"

text \<open>\<^verbatim>\<open>updateBulk()\<close> up to its first \<^verbatim>\<open>await\<close>.\<close>

definition updateBulk :: "'n OscConnection \<Rightarrow> 'n OscConnection" where
  "updateBulk s =
     (let s1 = s\<lparr>waitingForBulk := True\<rparr>;
          myAttempt = nextObject s1;
          s2 = s1\<lparr>updateBulkAttempt := Some myAttempt, nextObject := Suc myAttempt\<rparr>
      in updateBulk_request myAttempt s2)"

text \<open>The body of the loop over \<^verbatim>\<open>nodes\<close>, and the loop.\<close>

definition updateBulk_node ::
  "'n OSCMethodDescription \<Rightarrow> ('n::{plus,minus,abs,zero}) OscConnection \<Rightarrow> 'n OscConnection" where
  "updateBulk_node node s =
     receivedParamValue
       (parseParamFromPath (case full_path node of None \<Rightarrow> [] | Some p \<Rightarrow> p))
       (first_value (arguments node)) True s"

fun updateBulk_nodes ::
  "'n OSCMethodDescription list \<Rightarrow> ('n::{plus,minus,abs,zero}) OscConnection \<Rightarrow> 'n OscConnection" where
  "updateBulk_nodes [] s = s"
| "updateBulk_nodes (node # nodes) s = updateBulk_nodes nodes (updateBulk_node node s)"

text \<open>
  The \<^verbatim>\<open>catch\<close> of the loop in \<^verbatim>\<open>updateBulk\<close>: log, then wait 100 ms.
\<close>

definition updateBulk_catch :: "nat \<Rightarrow> exn \<Rightarrow> 'n OscConnection \<Rightarrow> 'n OscConnection" where
  "updateBulk_catch myAttempt e s =
     (let s1 = logger_log [LStr ''Error fetching bulk info: '', LErr e] s;
          (t, s2) = setTimeout (BulkBackoff myAttempt) 100 s1
      in s2)"

text \<open>
  The race has settled: \<open>Inl e\<close> is a rejection (of \<^verbatim>\<open>getBulk()\<close>, or \<^verbatim>\<open>Timed out\<close>),
  \<open>Inr None\<close> the answer \<^verbatim>\<open>null\<close> or \<^verbatim>\<open>undefined\<close>, \<open>Inr (Some nodes)\<close> a list of nodes.
  This is the rest of \<^verbatim>\<open>_updateBulk\<close> and of the turn of the loop that called it.
\<close>

definition updateBulk_settled ::
  "nat \<Rightarrow> exn + 'n OSCMethodDescription list option \<Rightarrow> ('n::{plus,minus,abs,zero}) OscConnection
     \<Rightarrow> 'n OscConnection" where
  "updateBulk_settled myAttempt outcome s =
     (case outcome of
        Inl e \<Rightarrow> updateBulk_catch myAttempt e s
      | Inr None \<Rightarrow> updateBulk_catch myAttempt (Error ''VRChat OscQuery not discovered yet'') s
      | Inr (Some nodes) \<Rightarrow>
          (let s1 = (if \<not> isStillValid myAttempt s then s else updateBulk_nodes nodes s)
           in s1\<lparr>waitingForBulk := False\<rparr>))"

text \<open>The 100 ms are over: \<^verbatim>\<open>if (isStillValid()) continue;\<close>, else leave the loop.\<close>

definition updateBulk_retry :: "nat \<Rightarrow> 'n OscConnection \<Rightarrow> 'n OscConnection" where
  "updateBulk_retry myAttempt s =
     (if isStillValid myAttempt s then updateBulk_request myAttempt s
      else s\<lparr>waitingForBulk := False\<rparr>)"

subsection \<open>Opening the socket: \<^verbatim>\<open>openSocket\<close> and \<^verbatim>\<open>openSocketUnsafe\<close>\<close>

text \<open>\<^verbatim>\<open>private error(e)\<close>\<close>

definition error :: "exn \<Rightarrow> 'n OscConnection \<Rightarrow> 'n OscConnection" where
  "error e s = logger_log [LStr ''<-'', LStr ''ERROR'', LErr e] s"

text \<open>
  \<^verbatim>\<open>openSocket()\<close> up to the first \<^verbatim>\<open>await\<close> of \<^verbatim>\<open>openSocketUnsafe\<close>: the free port is
  asked for.
\<close>

definition openSocket :: "'n OscConnection \<Rightarrow> 'n OscConnection" where
  "openSocket s = suspend AwaitPort (effect (GetPort 33776) s)"

text \<open>
  \<^verbatim>\<open>openSocketUnsafe\<close> from the answer of \<^verbatim>\<open>getPortPromise\<close> (\<open>Inl e\<close>: it rejected) to
  the \<^verbatim>\<open>await\<close> of \<^verbatim>\<open>oscQuery.start()\<close>. The result is the exception the stretch
  raises, if any, and the state it leaves.
\<close>

definition openSocketUnsafe_port ::
  "exn + nat \<Rightarrow> 'n OscConnection \<Rightarrow> exn option \<times> 'n OscConnection" where
  "openSocketUnsafe_port r s =
     (case r of
        Inl e \<Rightarrow> (Some e, s)
      | Inr p \<Rightarrow>
          (let s1 = s\<lparr>port := p\<rparr>;
               s2 = logger_log [LStr ''Selected port: '', LNum p] s1;
               s3 = logger_log [LStr ''Starting OSCQuery server...''] s2;
               q = nextObject s3;
               s4 = effect (QueryNew q p) (s3\<lparr>oscQuery := Some q, nextObject := Suc q\<rparr>);
               s5 = effect (QueryAddMethod q ''/avatar/change'') s4;
               s6 = effect (QueryStart q) s5
           in (None, suspend (AwaitStart p) s6)))"

text \<open>
  \<^verbatim>\<open>openSocketUnsafe\<close> from the answer of \<^verbatim>\<open>oscQuery.start()\<close> (\<open>Inr\<close>: the
  \<^verbatim>\<open>oscPort\<close> of the host info) to its end; \<open>p\<close> is its local \<^verbatim>\<open>port\<close>, and
  \<open>open_exn\<close> what \<^verbatim>\<open>oscSocket.open()\<close> throws, if it does. The four handlers
  registered on the new socket are \<open>on_ready\<close>, \<open>on_error\<close>, \<open>on_data\<close> and
  \<open>on_message\<close> below.
\<close>

definition openSocketUnsafe_started ::
  "nat \<Rightarrow> exn + nat \<Rightarrow> exn option \<Rightarrow> 'n OscConnection \<Rightarrow> exn option \<times> 'n OscConnection" where
  "openSocketUnsafe_started p r open_exn s =
     (case r of
        Inl e \<Rightarrow> (Some e, s)
      | Inr oscPort \<Rightarrow>
          (let s1 = logger_log [LStr ''OscQuery started on port '', LNum oscPort] s;
               s2 = logger_log [LStr ''Starting OSC server...''] s1;
               k = nextObject s2;
               s3 = effect (SocketNew k p)
                      (s2\<lparr>oscSocket := Some k, nextObject := Suc k,
                          receivedOne := (receivedOne s2)(k := False)\<rparr>);
               s4 = effect (SocketOpen k) s3
           in (open_exn, s4)))"

text \<open>The \<^verbatim>\<open>try\<close>/\<^verbatim>\<open>catch\<close> of \<^verbatim>\<open>openSocket\<close> around a stretch of \<^verbatim>\<open>openSocketUnsafe\<close>.\<close>

definition openSocket_catch :: "exn option \<times> 'n OscConnection \<Rightarrow> 'n OscConnection" where
  "openSocket_catch r = (case r of (None, s) \<Rightarrow> s | (Some e, s) \<Rightarrow> error e s)"

definition openSocket_port :: "exn + nat \<Rightarrow> 'n OscConnection \<Rightarrow> 'n OscConnection" where
  "openSocket_port r s = openSocket_catch (openSocketUnsafe_port r s)"

definition openSocket_started ::
  "nat \<Rightarrow> exn + nat \<Rightarrow> exn option \<Rightarrow> 'n OscConnection \<Rightarrow> 'n OscConnection" where
  "openSocket_started p r open_exn s = openSocket_catch (openSocketUnsafe_started p r open_exn s)"

subsection \<open>The handlers of the socket\<close>

text \<open>\<^verbatim>\<open>oscSocket.on('ready', ...)\<close>\<close>

definition on_ready :: "'n OscConnection \<Rightarrow> 'n OscConnection" where
  "on_ready s =
     (let s1 = s\<lparr>socketopen := True, recentlyRcvdOscCmds := 0, lastPacket := 0\<rparr>;
          s2 = logger_log [LStr ''<-'', LStr ''OPEN''] s1
      in logger_log [LStr ''Waiting for first message from OSC ...''] s2)"

text \<open>\<^verbatim>\<open>oscSocket.on('error', ...)\<close>: the body is a comment.\<close>

definition on_error :: "exn \<Rightarrow> 'n OscConnection \<Rightarrow> 'n OscConnection" where
  "on_error e s = s"

text \<open>
  \<^verbatim>\<open>this.udpClient.send(msg, port, address)\<close> of Node's \<^verbatim>\<open>dgram\<close>: a port that is not
  a whole number from 1 to 65535 makes it throw \<^verbatim>\<open>ERR_SOCKET_BAD_PORT\<close> at once, and
  nothing is sent; otherwise the datagram is handed over. What becomes of the datagram
  afterwards is not modelled.
\<close>

definition udpClient_send ::
  "buffer \<Rightarrow> js_number \<Rightarrow> jstring \<Rightarrow> 'n OscConnection \<Rightarrow> exn option \<times> 'n OscConnection" where
  "udpClient_send msg prt addr s =
     (case prt of
        Whole n \<Rightarrow>
          if 0 < n \<and> n \<le> 65535 then (None, effect (UdpSend msg n addr) s)
          else (Some (Error ''ERR_SOCKET_BAD_PORT''), s)
      | _ \<Rightarrow> (Some (Error ''ERR_SOCKET_BAD_PORT''), s))"

text \<open>
  \<^verbatim>\<open>oscSocket.on('data', (msg: Buffer) => ...)\<close>; \<open>configMap\<close> is what
  \<^verbatim>\<open>this.configMap.get\<close> answers. The handler takes the bytes only: the sender that
  the socket passes as a second argument is not among its parameters. The loop has no
  \<^verbatim>\<open>try\<close>: an exception of \<^verbatim>\<open>udpClient.send\<close> ends the loop and the handler, and is
  the first component of the result.
\<close>

fun proxy_loop ::
  "buffer \<Rightarrow> jstring list \<Rightarrow> 'n OscConnection \<Rightarrow> exn option \<times> 'n OscConnection" where
  "proxy_loop msg [] s = (None, s)"
| "proxy_loop msg (p # ps) s =
     (let (address, port) = parsePort (Some (js_trim p)) (units ''127.0.0.1'') (Whole 0)
      in if positive port
         then (case udpClient_send msg port address s of
                 (Some e, s1) \<Rightarrow> (Some e, s1)
               | (None, s1) \<Rightarrow> proxy_loop msg ps s1)
         else proxy_loop msg ps s)"

definition on_data ::
  "(string \<rightharpoonup> jstring) \<Rightarrow> buffer \<Rightarrow> 'n OscConnection \<Rightarrow> exn option \<times> 'n OscConnection" where
  "on_data configMap msg s =
     (case configMap ''osc.proxy'' of
        None \<Rightarrow> (None, s)
      | Some proxyPort \<Rightarrow>
          if proxyPort = [] then (None, s)
          else proxy_loop msg (js_split (of_char CHR '','') proxyPort) s)"

text \<open>
  \<^verbatim>\<open>oscSocket.on('message', (oscMsg, timeTag, rinfo) => ...)\<close>. \<open>myAddresses\<close> is the set
  of addresses for which \<^verbatim>\<open>this.myAddresses.has\<close> answers true, \<open>rcv\<close> the closure's
  \<^verbatim>\<open>receivedOne\<close> (returned as it is after the call), \<open>t1\<close> and \<open>t2\<close> the two readings
  of \<^verbatim>\<open>Date.now()\<close>.
\<close>

definition on_message ::
  "string set \<Rightarrow> nat \<Rightarrow> nat \<Rightarrow> bool \<Rightarrow> 'n OscMessage \<Rightarrow> RemoteInfo
     \<Rightarrow> ('n::{plus,minus,abs,zero}) OscConnection \<Rightarrow> bool \<times> 'n OscConnection" where
  "on_message myAddresses t1 t2 rcv oscMsg rinfo s =
     (let from = rinfo_address rinfo in
      if from \<notin> myAddresses then (rcv, s)
      else
        (let s1 = (if \<not> rcv
                   then updateBulk
                          (logger_log [LStr ''Received an OSC message. We are probably connected.''] s)
                   else s);
             s2 = s1\<lparr>lastPacket := t1\<rparr>;
             s3 = s2\<lparr>recentlyRcvdOscCmds := recentlyRcvdOscCmds s2 + 1\<rparr>;
             s4 = s3\<lparr>lastReceiveTime := t2\<rparr>;
             path = address oscMsg
         in if path = [] then (True, s4)
            else if path = ''/avatar/change''
            then (True, updateBulk (clearValues (logger_log [LStr ''<-'', LStr ''Avatar change''] s4)))
            else (True, receivedParamValue (parseParamFromPath path)
                          (first_value (args oscMsg)) False s4)))"

subsection \<open>\<^verbatim>\<open>delayRetry\<close>, \<^verbatim>\<open>send\<close>, the constructor\<close>

definition delayRetry :: "'n OscConnection \<Rightarrow> 'n OscConnection" where
  "delayRetry s =
     (let s1 = s\<lparr>socketopen := False, updateBulkAttempt := None, waitingForBulk := False\<rparr>;
          s2 = clearValues s1;
          s3 = (case oscSocket s2 of
                  Some k \<Rightarrow> (effect (SocketClose k) s2)\<lparr>oscSocket := None\<rparr>
                | None \<Rightarrow> s2);
          s4 = (case oscQuery s3 of
                  Some q \<Rightarrow> (effect (QueryStop q) s3)\<lparr>oscQuery := None\<rparr>
                | None \<Rightarrow> s3);
          s5 = clearTimeout (retryTimeout s4) s4;
          (t, s6) = setTimeout RetryOpenSocket 1000 s5
      in s6\<lparr>retryTimeout := Some t\<rparr>)"

text \<open>
  \<^verbatim>\<open>send(paramName, value)\<close>; \<open>sendAddr\<close> is what
  \<^verbatim>\<open>this.vrchatOscqueryService.getOscAddress()\<close> answers, \<open>None\<close> for \<^verbatim>\<open>undefined\<close>.
\<close>

definition send :: "string \<Rightarrow> 'n \<Rightarrow> (string \<times> nat) option \<Rightarrow> 'n OscConnection \<Rightarrow> 'n OscConnection" where
  "send paramName v sendAddr s =
     (case oscSocket s of
        None \<Rightarrow> s
      | Some k \<Rightarrow>
          if \<not> socketopen s then s
          else (case sendAddr of
                  None \<Rightarrow> s
                | Some (host, prt) \<Rightarrow>
                    effect (SocketSend k
                              \<lparr>address = ''/avatar/parameters/'' @ paramName,
                               args = Some [\<lparr>arg_type = ''f'', arg_value = JNumber v\<rparr>]\<rparr>
                              host prt) s))"

text \<open>The callback of \<^verbatim>\<open>setInterval(..., 15000)\<close>.\<close>

definition activity_tick :: "'n OscConnection \<Rightarrow> 'n OscConnection" where
  "activity_tick s =
     (if \<not> socketopen s then s
      else if recentlyRcvdOscCmds s > 0
      then (logger_log [LStr ''Received '', LNum (recentlyRcvdOscCmds s),
                        LStr '' OSC updates in the past 15 seconds''] s)
             \<lparr>recentlyRcvdOscCmds := 0\<rparr>
      else s)"

text \<open>The field initialisers and the constructor.\<close>

definition fresh :: "'n OscConnection" where
  "fresh =
     \<lparr>entries = Map.empty, recentlyRcvdOscCmds = 0, lastReceiveTime = 0, oscQuery = None,
      oscSocket = None, socketopen = False, retryTimeout = None, lastPacket = 0, port = 0,
      waitingForBulk = False, updateBulkAttempt = None, receivedOne = (\<lambda>k. False),
      timers = [], suspended = [], nextTimer = 0, nextObject = 0, trace = []\<rparr>"

definition constructor :: "'n OscConnection" where
  "constructor =
     (let s1 = openSocket fresh;
          (t, s2) = setTimeout ActivityInterval 15000 s1
      in s2)"

subsection \<open>The event loop\<close>

text \<open>
  What can happen to a connection: a promise it waits for settles, a timer fires, its
  socket reports, or a caller calls a public method. An event that resumes an
  \<^verbatim>\<open>await\<close> nobody is suspended at, or fires a timer that is not pending, does nothing.
  An exception that leaves the handler of \<^verbatim>\<open>'data'\<close> goes to the runtime; what the
  runtime does then is not modelled, and the run goes on from the state the handler
  left, which can only add runs to those of the program.
\<close>

datatype 'n event =
    PortSettled "exn + nat"
  | StartSettled nat "exn + nat" "exn option"
  | BulkSettled nat nat "exn + 'n OSCMethodDescription list option"
  | TimerFired nat
  | SocketReady
  | SocketError exn
  | SocketData "(string \<times> jstring) list" buffer
  | SocketMessage nat "string set" nat nat "'n OscMessage" RemoteInfo
  | CallDelayRetry
  | CallSend string 'n "(string \<times> nat) option"
  | CallClearDeltas

definition resume :: "await \<Rightarrow> 'n OscConnection \<Rightarrow> 'n OscConnection" where
  "resume a s = s\<lparr>suspended := remove1 a (suspended s)\<rparr>"

definition cancel_timer :: "nat \<Rightarrow> 'n OscConnection \<Rightarrow> 'n OscConnection" where
  "cancel_timer i s = s\<lparr>timers := filter (\<lambda>t. fst t \<noteq> i) (timers s)\<rparr>"

definition timer_fired :: "nat \<Rightarrow> ('n::{plus,minus,abs,zero}) OscConnection \<Rightarrow> 'n OscConnection" where
  "timer_fired i s =
     (case find (\<lambda>t. fst t = i) (timers s) of
        None \<Rightarrow> s
      | Some (j, ms, k) \<Rightarrow>
          (case k of
             ActivityInterval \<Rightarrow> activity_tick s
           | RetryOpenSocket \<Rightarrow> openSocket (cancel_timer i s)
           | BulkBackoff tok \<Rightarrow> updateBulk_retry tok (cancel_timer i s)
           | BulkTimeout tok \<Rightarrow>
               if AwaitBulk tok i \<in> set (suspended s)
               then updateBulk_settled tok (Inl (Error ''Timed out''))
                      (resume (AwaitBulk tok i) (cancel_timer i s))
               else cancel_timer i s))"

definition step :: "'n event \<Rightarrow> ('n::{plus,minus,abs,zero}) OscConnection \<Rightarrow> 'n OscConnection" where
  "step e s =
     (case e of
        PortSettled r \<Rightarrow>
          if AwaitPort \<in> set (suspended s) then openSocket_port r (resume AwaitPort s) else s
      | StartSettled p r open_exn \<Rightarrow>
          if AwaitStart p \<in> set (suspended s)
          then openSocket_started p r open_exn (resume (AwaitStart p) s) else s
      | BulkSettled tok t outcome \<Rightarrow>
          if AwaitBulk tok t \<in> set (suspended s)
          then updateBulk_settled tok outcome (resume (AwaitBulk tok t) s) else s
      | TimerFired i \<Rightarrow> timer_fired i s
      | SocketReady \<Rightarrow> on_ready s
      | SocketError x \<Rightarrow> on_error x s
      | SocketData cfg msg \<Rightarrow> snd (on_data (map_of cfg) msg s)
      | SocketMessage k myAddresses t1 t2 oscMsg rinfo \<Rightarrow>
          (let (r, s1) = on_message myAddresses t1 t2 (receivedOne s k) oscMsg rinfo s
           in s1\<lparr>receivedOne := (receivedOne s1)(k := r)\<rparr>)
      | CallDelayRetry \<Rightarrow> delayRetry s
      | CallSend paramName v sendAddr \<Rightarrow> send paramName v sendAddr s
      | CallClearDeltas \<Rightarrow> clearDeltas s)"

fun run :: "'n event list \<Rightarrow> ('n::{plus,minus,abs,zero}) OscConnection \<Rightarrow> 'n OscConnection" where
  "run [] s = s"
| "run (e # es) s = run es (step e s)"

subsection \<open>Sequences of calls on one cell and on the store\<close>

text \<open>
  A call on a cell is \<^verbatim>\<open>receivedUpdate(v)\<close> or \<^verbatim>\<open>clearDelta()\<close>; \<open>cell_run\<close> makes the
  calls of a list in order.
\<close>

datatype 'n cell_op = Update "'n jsval" | Clear

fun is_clear :: "'n cell_op \<Rightarrow> bool" where
  "is_clear Clear = True"
| "is_clear (Update v) = False"

fun cell_step :: "'n cell_op \<Rightarrow> ('n::{plus,minus,abs,zero}) OscValue \<Rightarrow> 'n OscValue" where
  "cell_step (Update v) c = fst (receivedUpdate v c)"
| "cell_step Clear c = clearDelta c"

fun cell_run :: "'n cell_op list \<Rightarrow> ('n::{plus,minus,abs,zero}) OscValue \<Rightarrow> 'n OscValue" where
  "cell_run [] c = c"
| "cell_run (x # xs) c = cell_run xs (cell_step x c)"

text \<open>
  The delta in the words of the specification: the absolute differences of consecutive
  values, over the steps whose two values are both numbers (\<open>abs_differences\<close>), of
  the values the cell has held since the last \<^verbatim>\<open>clearDelta\<close> (\<open>since_last_clear\<close>; the
  first of them is the value it held at that call), added up from the left: from 0, or
  from the delta the cell came with when no \<^verbatim>\<open>clearDelta\<close> was called.
\<close>

fun abs_differences :: "('n::{minus,abs}) jsval list \<Rightarrow> 'n list" where
  "abs_differences (JNumber a # JNumber b # vs) = \<bar>b - a\<bar> # abs_differences (JNumber b # vs)"
| "abs_differences (a # b # vs) = abs_differences (b # vs)"
| "abs_differences vs = []"

fun updates_of :: "'n cell_op list \<Rightarrow> 'n jsval list" where
  "updates_of [] = []"
| "updates_of (Update v # xs) = v # updates_of xs"
| "updates_of (Clear # xs) = updates_of xs"

definition since_last_clear :: "'n cell_op list \<Rightarrow> 'n cell_op list" where
  "since_last_clear xs = rev (takeWhile (\<lambda>x. \<not> is_clear x) (rev xs))"

definition until_last_clear :: "'n cell_op list \<Rightarrow> 'n cell_op list" where
  "until_last_clear xs = rev (dropWhile (\<lambda>x. \<not> is_clear x) (rev xs))"

definition accumulated_delta :: "('n::{plus,minus,abs,zero}) OscValue \<Rightarrow> 'n cell_op list \<Rightarrow> 'n" where
  "accumulated_delta c xs =
     (let start = last (val c # updates_of (until_last_clear xs));
          base = (if list_ex is_clear xs then 0 else delta c)
      in foldl (+) base (abs_differences (start # updates_of (since_last_clear xs))))"

text \<open>
  A call on the store is \<^verbatim>\<open>receivedParamValue(p, v, onlyUseIfNew)\<close> or
  \<^verbatim>\<open>clearDeltas()\<close>. \<open>updates_to k ex xs\<close> lists the calls that the calls \<open>xs\<close> on the
  store make on the cell named \<open>k\<close>, where \<open>ex\<close> says whether the store holds such a
  cell before; \<open>cell_of s k\<close> is that cell, a new one when the store holds none.
\<close>

datatype 'n store_op = Received string "'n jsval" bool | ClearDeltas

fun store_step :: "'n store_op \<Rightarrow> ('n::{plus,minus,abs,zero}) OscConnection \<Rightarrow> 'n OscConnection" where
  "store_step (Received p v b) s = receivedParamValue (Some p) v b s"
| "store_step ClearDeltas s = clearDeltas s"

fun store_run :: "'n store_op list \<Rightarrow> ('n::{plus,minus,abs,zero}) OscConnection \<Rightarrow> 'n OscConnection" where
  "store_run [] s = s"
| "store_run (x # xs) s = store_run xs (store_step x s)"

fun updates_to :: "string \<Rightarrow> bool \<Rightarrow> 'n store_op list \<Rightarrow> 'n cell_op list" where
  "updates_to k ex [] = []"
| "updates_to k ex (Received p v b # r) =
     (if p = k \<and> v \<noteq> JUndefined \<and> (\<not> b \<or> \<not> ex) then Update v # updates_to k True r
      else updates_to k ex r)"
| "updates_to k ex (ClearDeltas # r) = Clear # updates_to k ex r"

definition cell_of :: "('n::zero) OscConnection \<Rightarrow> string \<Rightarrow> 'n OscValue" where
  "cell_of s k = (case entries s k of None \<Rightarrow> new_OscValue | Some c \<Rightarrow> c)"

subsection \<open>What the properties speak of\<close>

text \<open>The events emitted so far, and the attempts for which \<^verbatim>\<open>getBulk()\<close> was called.\<close>

fun emitted_of :: "'n effect list \<Rightarrow> 'n emitted list" where
  "emitted_of [] = []"
| "emitted_of (Emit ev # es) = ev # emitted_of es"
| "emitted_of (e # es) = emitted_of es"

definition emitted :: "'n OscConnection \<Rightarrow> 'n emitted list" where
  "emitted s = emitted_of (trace s)"

fun requests_of :: "'n effect list \<Rightarrow> nat list" where
  "requests_of [] = []"
| "requests_of (GetBulk tok # es) = tok # requests_of es"
| "requests_of (e # es) = requests_of es"

definition bulk_requests :: "'n OscConnection \<Rightarrow> nat list" where
  "bulk_requests s = requests_of (trace s)"

text \<open>The pending timers that will call \<^verbatim>\<open>openSocket\<close> again.\<close>

definition retry_timers :: "'n OscConnection \<Rightarrow> (nat \<times> nat \<times> timer_kind) list" where
  "retry_timers s = filter (\<lambda>t. snd (snd t) = RetryOpenSocket) (timers s)"

text \<open>
  The invariant of the timers: handles are distinct and were handed out, and a pending
  retry timer is the one \<^verbatim>\<open>retryTimeout\<close> holds.
\<close>

definition timers_ok :: "'n OscConnection \<Rightarrow> bool" where
  "timers_ok s =
     (distinct (map fst (timers s))
      \<and> (\<forall>t \<in> set (timers s). fst t < nextTimer s
            \<and> (snd (snd t) = RetryOpenSocket \<longrightarrow> retryTimeout s = Some (fst t))))"

text \<open>
  The token \<open>tok\<close> was minted and is not the current one any more; the events that
  continue the attempt with that token: its race settles (by an answer or by its
  time-out), or its wait of 100 ms ends.
\<close>

definition superseded :: "nat \<Rightarrow> 'n OscConnection \<Rightarrow> bool" where
  "superseded tok s = (tok < nextObject s \<and> updateBulkAttempt s \<noteq> Some tok)"

definition attempt_event :: "nat \<Rightarrow> 'n OscConnection \<Rightarrow> 'n event \<Rightarrow> bool" where
  "attempt_event tok s e =
     (case e of
        BulkSettled tok' t outcome \<Rightarrow> tok' = tok
      | TimerFired i \<Rightarrow>
          (case find (\<lambda>t. fst t = i) (timers s) of
             Some (j, ms, BulkTimeout tok') \<Rightarrow> tok' = tok
           | Some (j, ms, BulkBackoff tok') \<Rightarrow> tok' = tok
           | _ \<Rightarrow> False)
      | _ \<Rightarrow> False)"

text \<open>
  The destinations the value of \<^verbatim>\<open>osc.proxy\<close> names: its pieces between commas,
  trimmed, read by \<^verbatim>\<open>parsePort\<close> with the default address \<^verbatim>\<open>127.0.0.1\<close>, those with
  a port above 0. A destination is \<open>accepted\<close> when \<^verbatim>\<open>udpClient.send\<close> takes its port.
  \<open>forwards\<close> are the calls \<^verbatim>\<open>udpClient.send(msg, port, address)\<close> to the destinations
  that come before the first one not accepted, and \<open>bad_port\<close> the exception when
  there is such a one.
\<close>

definition proxy_targets :: "jstring \<Rightarrow> (jstring \<times> js_number) list" where
  "proxy_targets proxyPort =
     filter (\<lambda>(a, p). positive p)
       (map (\<lambda>e. parsePort (Some (js_trim e)) (units ''127.0.0.1'') (Whole 0))
          (js_split (of_char CHR '','') proxyPort))"

fun accepted :: "jstring \<times> js_number \<Rightarrow> bool" where
  "accepted (a, Whole n) = (0 < n \<and> n \<le> 65535)"
| "accepted (a, p) = False"

fun port_of :: "js_number \<Rightarrow> int" where
  "port_of (Whole n) = n"
| "port_of p = 0"

definition forwards :: "buffer \<Rightarrow> jstring \<Rightarrow> 'n effect list" where
  "forwards msg proxyPort =
     map (\<lambda>(a, p). UdpSend msg (port_of p) a) (takeWhile accepted (proxy_targets proxyPort))"

definition bad_port :: "jstring \<Rightarrow> exn option" where
  "bad_port proxyPort =
     (if list_all accepted (proxy_targets proxyPort) then None
      else Some (Error ''ERR_SOCKET_BAD_PORT''))"

text \<open>
  A configuration value written out: each destination as host, colon, port in decimal
  digits, the destinations joined by commas. A plain host has no colon, no comma and no
  white space in front; \<open>is_dec\<close> are the code units of \<^verbatim>\<open>0\<close> to \<^verbatim>\<open>9\<close>.
\<close>

function decimal :: "nat \<Rightarrow> jstring" where
  "decimal n = (if n < 10 then [48 + n] else decimal (n div 10) @ [48 + n mod 10])"
  by pat_completeness auto
termination
  by (relation "measure id") auto

definition proxy_entry :: "jstring \<times> nat \<Rightarrow> jstring" where
  "proxy_entry t = fst t @ units '':'' @ decimal (snd t)"

fun join_entries :: "jstring list \<Rightarrow> jstring" where
  "join_entries [] = []"
| "join_entries [e] = e"
| "join_entries (e # es) = e @ units '','' @ join_entries es"

definition plain_host :: "jstring \<Rightarrow> bool" where
  "plain_host h =
     (of_char CHR '':'' \<notin> set h \<and> of_char CHR '','' \<notin> set h \<and> (h = [] \<or> \<not> is_ws (hd h)))"

definition is_dec :: "nat \<Rightarrow> bool" where
  "is_dec c = (48 \<le> c \<and> c \<le> 57)"

text \<open>
  The numbers of JavaScript are IEEE 754 doubles; a 32-bit float of an OSC argument is
  read into one. A finite double is \<open>m / 2 ^ k\<close> for an integer \<open>m\<close> below \<open>2 ^ 53\<close> in
  size; \<open>dyadic m k\<close> is that number. Where the operands and the exact result of a
  subtraction, an absolute value or an addition are such numbers, the operation of the
  doubles gives the exact result, and the number type of this theory, taken to be the
  reals, computes what the code computes.
\<close>

definition dyadic :: "int \<Rightarrow> nat \<Rightarrow> real" where
  "dyadic m k = of_int m / 2 ^ k"

section \<open>Properties\<close>

subsection \<open>The accumulated delta of a cell\<close>

lemma cell_run_snoc: "cell_run (xs @ [x]) c = cell_step x (cell_run xs c)"
  by (induction xs arbitrary: c) auto

lemma updates_of_append: "updates_of (xs @ ys) = updates_of xs @ updates_of ys"
  by (induction xs rule: updates_of.induct) auto

lemma until_since: "until_last_clear xs @ since_last_clear xs = xs"
  unfolding until_last_clear_def since_last_clear_def
  by (metis rev_append rev_rev_ident takeWhile_dropWhile_id)

lemma abs_differences_Cons2:
  "abs_differences (a # b # vs) =
     (case (a, b) of (JNumber x, JNumber y) \<Rightarrow> [\<bar>y - x\<bar>] | _ \<Rightarrow> []) @ abs_differences (b # vs)"
  by (cases a; cases b) simp_all

lemma abs_differences_single: "abs_differences [a] = []"
  by (cases a) simp_all

lemma abs_differences_snoc:
  "abs_differences (v # vs @ [w]) =
     abs_differences (v # vs) @
       (case (last (v # vs), w) of (JNumber a, JNumber b) \<Rightarrow> [\<bar>b - a\<bar>] | _ \<Rightarrow> [])"
proof (induction vs arbitrary: v)
  case Nil
  show ?case by (simp add: abs_differences_Cons2 abs_differences_single)
next
  case (Cons u us)
  show ?case using Cons [of u] by (simp add: abs_differences_Cons2)
qed

lemma val_receivedUpdate: "val (fst (receivedUpdate v c)) = v"
  by (simp add: receivedUpdate_def Let_def)

lemma delta_receivedUpdate:
  "delta (fst (receivedUpdate v c)) =
     foldl (+) (delta c) (case (val c, v) of (JNumber a, JNumber b) \<Rightarrow> [\<bar>b - a\<bar>] | _ \<Rightarrow> [])"
  by (simp add: receivedUpdate_def Let_def split: jsval.splits)

lemma val_cell_run: "val (cell_run xs c) = last (val c # updates_of xs)"
proof (induction xs rule: rev_induct)
  case Nil
  show ?case by simp
next
  case (snoc x xs)
  then show ?case
    by (cases x) (simp_all add: cell_run_snoc updates_of_append val_receivedUpdate clearDelta_def)
qed

lemma since_snoc_Update: "since_last_clear (xs @ [Update v]) = since_last_clear xs @ [Update v]"
  by (simp add: since_last_clear_def)

lemma until_snoc_Update: "until_last_clear (xs @ [Update v]) = until_last_clear xs"
  by (simp add: until_last_clear_def)

lemma since_snoc_Clear: "since_last_clear (xs @ [Clear]) = []"
  by (simp add: since_last_clear_def)

lemma until_snoc_Clear: "until_last_clear (xs @ [Clear]) = xs @ [Clear]"
  by (simp add: until_last_clear_def)

lemma last_split: "last (v # updates_of xs) = last (last (v # updates_of (until_last_clear xs)) # updates_of (since_last_clear xs))"
proof -
  have "updates_of xs = updates_of (until_last_clear xs) @ updates_of (since_last_clear xs)"
    by (metis until_since updates_of_append)
  then show ?thesis by (simp add: last_append)
qed

lemma delta_cell_run: "delta (cell_run xs c) = accumulated_delta c xs"
proof (induction xs rule: rev_induct)
  case Nil
  show ?case by (simp add: accumulated_delta_def since_last_clear_def until_last_clear_def abs_differences_single)
next
  case (snoc x xs)
  show ?case
  proof (cases x)
    case Clear
    then show ?thesis
      by (simp add: cell_run_snoc clearDelta_def accumulated_delta_def since_snoc_Clear
            until_snoc_Clear abs_differences_single)
  next
    case (Update v)
    have "val (cell_run xs c) = last (last (val c # updates_of (until_last_clear xs)) # updates_of (since_last_clear xs))"
      using val_cell_run last_split by metis
    then show ?thesis using snoc Update
      by (simp add: cell_run_snoc delta_receivedUpdate accumulated_delta_def since_snoc_Update
            until_snoc_Update updates_of_append abs_differences_snoc Let_def del: last.simps)
  qed
qed

lemma effect_simps [simp]:
  "entries (effect e s) = entries s"
  "entries (emit ev s) = entries s"
  "entries (logger_log ps s) = entries s"
  by (simp_all add: effect_def emit_def logger_log_def)

lemma entries_receivedParamValue:
  "entries (receivedParamValue (Some p) v b s) k =
     (if p = k \<and> v \<noteq> JUndefined \<and> (\<not> b \<or> entries s k = None)
      then Some (fst (receivedUpdate v (cell_of s k)))
      else entries s k)"
  by (auto simp: receivedParamValue_def cell_of_def Let_def split: option.splits prod.splits)

lemma entries_clearDeltas: "entries (clearDeltas s) k = map_option clearDelta (entries s k)"
  by (simp add: clearDeltas_def)

lemma clearDelta_new: "clearDelta new_OscValue = new_OscValue"
  by (simp add: clearDelta_def new_OscValue_def)

lemma cell_of_step:
  "cell_of (store_step x s) k = cell_run (updates_to k (entries s k \<noteq> None) [x]) (cell_of s k)"
  by (cases x) (auto simp: cell_of_def entries_receivedParamValue entries_clearDeltas clearDelta_new
         split: option.splits)

lemma present_step:
  "(entries (store_step x s) k \<noteq> None) = (entries s k \<noteq> None \<or> updates_of (updates_to k (entries s k \<noteq> None) [x]) \<noteq> [])"
  by (cases x) (auto simp: entries_receivedParamValue entries_clearDeltas)

lemma cell_run_append: "cell_run (xs @ ys) c = cell_run ys (cell_run xs c)"
  by (induction xs arbitrary: c) auto

lemma updates_to_Cons:
  "updates_to k ex (x # xs) =
     updates_to k ex [x] @ updates_to k (ex \<or> updates_of (updates_to k ex [x]) \<noteq> []) xs"
  by (cases x) auto

lemma cell_of_store_run:
  "cell_of (store_run xs s) k = cell_run (updates_to k (entries s k \<noteq> None) xs) (cell_of s k)"
proof (induction xs arbitrary: s)
  case Nil
  show ?case by simp
next
  case (Cons x xs)
  have "cell_of (store_run (x # xs) s) k
        = cell_run (updates_to k (entries (store_step x s) k \<noteq> None) xs) (cell_of (store_step x s) k)"
    using Cons by simp
  also have "\<dots> = cell_run (updates_to k (entries s k \<noteq> None \<or> updates_of (updates_to k (entries s k \<noteq> None) [x]) \<noteq> []) xs)
                     (cell_run (updates_to k (entries s k \<noteq> None) [x]) (cell_of s k))"
    by (simp only: present_step cell_of_step)
  also have "\<dots> = cell_run (updates_to k (entries s k \<noteq> None) (x # xs)) (cell_of s k)"
    by (subst (2) updates_to_Cons) (simp only: cell_run_append)
  finally show ?case .
qed

text \<open>
  Claim C1. For every cell and every sequence of calls on it, the cell's delta is the
  sum (added up from the left, as the code does) of the absolute differences of
  consecutive values, over the steps whose old and new value are both numbers, since the
  last \<^verbatim>\<open>clearDelta\<close>: \<open>accumulated_delta\<close>. The same holds for the cell named \<open>k\<close>
  of a store under any sequence of \<^verbatim>\<open>receivedParamValue\<close> and \<^verbatim>\<open>clearDeltas\<close> calls,
  whatever the calls for other names are: only the calls that reach the cell \<open>k\<close>
  count. An update whose old or new value is not a number leaves the delta as it is.
\<close>

theorem delta_is_sum_of_absolute_differences:
  fixes s :: "('n::{plus,minus,abs,zero}) OscConnection" and c :: "'n OscValue"
  shows "delta (cell_of (store_run xs s) k)
           = accumulated_delta (cell_of s k) (updates_to k (entries s k \<noteq> None) xs)
         \<and> delta (cell_run ys c) = accumulated_delta c ys
         \<and> (\<not> (is_number (val c) \<and> is_number v) \<longrightarrow> delta (fst (receivedUpdate v c)) = delta c)"
proof (intro conjI impI)
  show "delta (cell_of (store_run xs s) k)
          = accumulated_delta (cell_of s k) (updates_to k (entries s k \<noteq> None) xs)"
    by (simp only: cell_of_store_run delta_cell_run)
  show "delta (cell_run ys c) = accumulated_delta c ys"
    by (rule delta_cell_run)
  assume "\<not> (is_number (val c) \<and> is_number v)"
  then show "delta (fst (receivedUpdate v c)) = delta c"
    by (cases "val c"; cases v) (simp_all add: receivedUpdate_def Let_def)
qed

theorem delta_is_sum_of_absolute_differences_witness:
  "delta (cell_of (store_run
              [Received ''a'' (JNumber 1) False, Received ''b'' (JNumber 5) False,
               Received ''a'' (JNumber 4) False, ClearDeltas,
               Received ''a'' (JString ''x'') False, Received ''a'' (JNumber 2) True,
               Received ''b'' (JNumber 9) False,  Received ''a'' (JNumber 2) False,
               Received ''a'' JUndefined False, Received ''a'' (JNumber 7) False]
              (fresh :: int OscConnection)) ''a'') = 5
   \<and> delta (cell_run [Update (JNumber 3), Update (JNumber 1), Clear, Update (JNumber 6)]
               \<lparr>val = JNumber 2, delta = (3::int)\<rparr>) = 5
   \<and> \<not> (is_number (val \<lparr>val = JNumber 2, delta = (3::int)\<rparr>) \<and> is_number (JString ''x'' :: int jsval))
   \<and> delta (fst (receivedUpdate (JString ''x'') \<lparr>val = JNumber 2, delta = (3::int)\<rparr>)) = 3"
  using delta_is_sum_of_absolute_differences
    [of "[Received ''a'' (JNumber 1) False, Received ''b'' (JNumber 5) False,
               Received ''a'' (JNumber 4) False, ClearDeltas,
               Received ''a'' (JString ''x'') False, Received ''a'' (JNumber 2) True,
               Received ''b'' (JNumber 9) False,  Received ''a'' (JNumber 2) False,
               Received ''a'' JUndefined False, Received ''a'' (JNumber 7) False]"
         "fresh :: int OscConnection" "''a''"
         "[Update (JNumber 3), Update (JNumber 1), Clear, Update (JNumber 6)]"
         "\<lparr>val = JNumber 2, delta = (3::int)\<rparr>" "JString ''x''"]
  by (simp add: fresh_def cell_of_def accumulated_delta_def since_last_clear_def
        until_last_clear_def new_OscValue_def)

subsection \<open>Bulk values, untrusted senders, sending\<close>

lemma receivedParamValue_present:
  "entries s p = Some c \<Longrightarrow> receivedParamValue (Some p) v True s = s"
  by (simp add: receivedParamValue_def)

lemma receivedParamValue_keeps:
  "entries s p = Some c \<Longrightarrow> entries (receivedParamValue q v True s) p = Some c"
  by (cases q) (auto simp: receivedParamValue_def Let_def split: option.splits prod.splits)

lemma updateBulk_nodes_keeps:
  "entries s p = Some c \<Longrightarrow> entries (updateBulk_nodes nodes s) p = Some c"
  by (induction nodes arbitrary: s) (simp_all add: updateBulk_node_def receivedParamValue_keeps)

lemma entries_setTimeout [simp]: "entries (snd (setTimeout k ms s)) = entries s"
  by (simp add: setTimeout_def)

lemma entries_suspend [simp]: "entries (suspend a s) = entries s"
  by (simp add: suspend_def)

lemma entries_updateBulk_catch [simp]: "entries (updateBulk_catch tok e s) = entries s"
  by (simp add: updateBulk_catch_def Let_def split: prod.splits) (simp add: setTimeout_def)

lemma updateBulk_settled_keeps:
  "entries s p = Some c \<Longrightarrow> entries (updateBulk_settled tok outcome s) p = Some c"
  by (auto simp: updateBulk_settled_def Let_def updateBulk_nodes_keeps split: sum.splits option.splits)

text \<open>
  Claim C2. For a name that has a cell in the store, \<^verbatim>\<open>receivedParamValue\<close> with
  \<^verbatim>\<open>onlyUseIfNew = true\<close> leaves the whole state as it is, so the cell keeps its value and
  its delta; the loop over the nodes of a bulk answer, and the whole stretch that
  handles the answer, leave every cell that exists as it is. For a name that has no
  cell, a value other than \<^verbatim>\<open>undefined\<close> makes one with that value and delta 0.
\<close>

theorem bulk_never_overwrites:
  "(entries s p = Some c \<longrightarrow>
      receivedParamValue (Some p) v True s = s
      \<and> entries (updateBulk_nodes nodes s) p = Some c
      \<and> entries (updateBulk_settled tok outcome s) p = Some c)
   \<and> (entries s p = None \<and> v \<noteq> JUndefined \<longrightarrow>
        entries (receivedParamValue (Some p) v True s) p = Some \<lparr>val = v, delta = 0\<rparr>)"
  by (simp add: receivedParamValue_present updateBulk_nodes_keeps updateBulk_settled_keeps)
     (simp add: receivedParamValue_def receivedUpdate_def new_OscValue_def Let_def emit_def
        effect_def)

theorem bulk_never_overwrites_witness:
  "entries (receivedParamValue (Some ''foo'') (JNumber 1) False (fresh :: int OscConnection)) ''foo''
     = Some \<lparr>val = JNumber 1, delta = 0\<rparr>
   \<and> entries (updateBulk_nodes
        [\<lparr>full_path = Some ''/avatar/parameters/foo'',
          arguments = Some [\<lparr>arg_type = ''f'', arg_value = JNumber 2\<rparr>]\<rparr>]
        (receivedParamValue (Some ''foo'') (JNumber 1) False (fresh :: int OscConnection))) ''foo''
     = Some \<lparr>val = JNumber 1, delta = 0\<rparr>
   \<and> entries (fresh :: int OscConnection) ''bar'' = None
   \<and> entries (receivedParamValue (Some ''bar'') (JNumber 2) True (fresh :: int OscConnection)) ''bar''
     = Some \<lparr>val = JNumber 2, delta = 0\<rparr>"
proof -
  let ?s = "receivedParamValue (Some ''foo'') (JNumber 1) False (fresh :: int OscConnection)"
  have h: "entries ?s ''foo'' = Some \<lparr>val = JNumber 1, delta = 0\<rparr>"
    by (simp add: receivedParamValue_def fresh_def receivedUpdate_def new_OscValue_def Let_def
          emit_def effect_def)
  have n: "entries (fresh :: int OscConnection) ''bar'' = None"
    by (simp add: fresh_def)
  have v: "JNumber (2::int) \<noteq> JUndefined" by simp
  from bulk_never_overwrites [of ?s "''foo''" "\<lparr>val = JNumber 1, delta = 0\<rparr>"] h
  have a: "entries (updateBulk_nodes
        [\<lparr>full_path = Some ''/avatar/parameters/foo'',
          arguments = Some [\<lparr>arg_type = ''f'', arg_value = JNumber 2\<rparr>]\<rparr>] ?s) ''foo''
     = Some \<lparr>val = JNumber 1, delta = 0\<rparr>"
    by blast
  from bulk_never_overwrites [of "fresh :: int OscConnection" "''bar''" _ "JNumber 2"] n v
  have b: "entries (receivedParamValue (Some ''bar'') (JNumber 2) True (fresh :: int OscConnection)) ''bar''
     = Some \<lparr>val = JNumber 2, delta = 0\<rparr>"
    by blast
  from h a n b show ?thesis by (intro conjI)
qed

text \<open>
  Claim C6. A message whose sender is not a trusted address leaves the whole state as
  it is: no cell is made or changed, nothing is emitted or logged, and the closure's
  \<^verbatim>\<open>receivedOne\<close> stays as it was. The handler has no statement that throws.
\<close>

theorem untrusted_sender_changes_nothing:
  assumes "rinfo_address rinfo \<notin> myAddresses"
  shows "on_message myAddresses t1 t2 rcv oscMsg rinfo s = (rcv, s)
         \<and> step (SocketMessage k myAddresses t1 t2 oscMsg rinfo) s = s"
  using assms by (simp add: on_message_def step_def)

theorem untrusted_sender_changes_nothing_witness:
  "rinfo_address \<lparr>rinfo_address = ''10.0.0.9'', rinfo_family = ''IPv4'', rinfo_port = 9000, rinfo_size = 24\<rparr>
     \<notin> {''127.0.0.1''}
   \<and> on_message {''127.0.0.1''} 5 5 False
        \<lparr>address = ''/avatar/parameters/Speed'', args = Some [\<lparr>arg_type = ''f'', arg_value = JNumber 1\<rparr>]\<rparr>
        \<lparr>rinfo_address = ''10.0.0.9'', rinfo_family = ''IPv4'', rinfo_port = 9000, rinfo_size = 24\<rparr>
        (fresh :: int OscConnection) = (False, fresh)"
proof -
  have h: "rinfo_address \<lparr>rinfo_address = ''10.0.0.9'', rinfo_family = ''IPv4'', rinfo_port = 9000, rinfo_size = 24\<rparr>
     \<notin> {''127.0.0.1''}" by simp
  from untrusted_sender_changes_nothing [OF h] h show ?thesis by blast
qed

text \<open>
  Claim C7. \<^verbatim>\<open>send\<close> leaves the state as it is when there is no socket, the socket is
  not open, or \<^verbatim>\<open>getOscAddress()\<close> answers \<^verbatim>\<open>undefined\<close>; otherwise it calls
  \<^verbatim>\<open>oscSocket.send\<close> once, with the message for \<^verbatim>\<open>/avatar/parameters/\<close> followed by the
  name, one argument of type \<^verbatim>\<open>f\<close>, and the host and port of the peer, and changes
  nothing else.
\<close>

theorem send_guarded:
  "(oscSocket s = None \<or> \<not> socketopen s \<or> sendAddr = None \<longrightarrow> send paramName v sendAddr s = s)
   \<and> (oscSocket s = Some k \<and> socketopen s \<and> sendAddr = Some (host, prt) \<longrightarrow>
        send paramName v sendAddr s =
          s\<lparr>trace := trace s @
               [SocketSend k \<lparr>address = ''/avatar/parameters/'' @ paramName,
                              args = Some [\<lparr>arg_type = ''f'', arg_value = JNumber v\<rparr>]\<rparr> host prt]\<rparr>)"
  by (auto simp: send_def effect_def split: option.splits)

theorem send_guarded_witness:
  "send ''Speed'' 1 None ((fresh :: int OscConnection)\<lparr>oscSocket := Some 3, socketopen := True\<rparr>)
     = fresh\<lparr>oscSocket := Some 3, socketopen := True\<rparr>
   \<and> send ''Speed'' 1 (Some (''127.0.0.1'', 9000)) ((fresh :: int OscConnection)\<lparr>oscSocket := Some 3, socketopen := True\<rparr>)
     = fresh\<lparr>oscSocket := Some 3, socketopen := True,
         trace := [SocketSend 3 \<lparr>address = ''/avatar/parameters/Speed'',
                              args = Some [\<lparr>arg_type = ''f'', arg_value = JNumber 1\<rparr>]\<rparr> ''127.0.0.1'' 9000]\<rparr>"
  using send_guarded [of "(fresh :: int OscConnection)\<lparr>oscSocket := Some 3, socketopen := True\<rparr>" None "''Speed''" 1 3 "''127.0.0.1''" 9000]
        send_guarded [of "(fresh :: int OscConnection)\<lparr>oscSocket := Some 3, socketopen := True\<rparr>" "Some (''127.0.0.1'', 9000)" "''Speed''" 1 3 "''127.0.0.1''" 9000]
  by (simp add: fresh_def)

subsection \<open>The avatar change\<close>

lemma emitted_of_append: "emitted_of (xs @ ys) = emitted_of xs @ emitted_of ys"
  by (induction xs rule: emitted_of.induct) auto

text \<open>
  Claim C9. A message \<^verbatim>\<open>/avatar/change\<close> from a trusted sender empties the store, emits
  \<^verbatim>\<open>'clear'\<close> once and nothing else, and starts a bulk attempt with a fresh token that is
  the current one afterwards: \<^verbatim>\<open>getBulk()\<close> is called for it last, and its race is
  pending. When the message is the first one of the socket, the attempt that the first
  message starts comes before and is superseded at once. No \<^verbatim>\<open>'add'\<close> or \<^verbatim>\<open>'change'\<close> is
  emitted: the message updates no parameter.
\<close>

theorem avatar_change_resets:
  assumes "rinfo_address rinfo \<in> myAddresses" and "address oscMsg = ''/avatar/change''"
  shows "(let s' = snd (on_message myAddresses t1 t2 rcv oscMsg rinfo s);
              tok = (if rcv then nextObject s else Suc (nextObject s));
              t = (if rcv then nextTimer s else Suc (nextTimer s))
          in entries s' = Map.empty
             \<and> trace s' = trace s
                  @ (if rcv then []
                     else [Log [LStr ''Received an OSC message. We are probably connected.''],
                           GetBulk (nextObject s)])
                  @ [Log [LStr ''<-'', LStr ''Avatar change''], Emit EvClear, GetBulk tok]
             \<and> emitted s' = emitted s @ [EvClear]
             \<and> updateBulkAttempt s' = Some tok
             \<and> waitingForBulk s'
             \<and> suspended s' = suspended s
                  @ (if rcv then [] else [AwaitBulk (nextObject s) (nextTimer s)])
                  @ [AwaitBulk tok t]
             \<and> timers s' = timers s
                  @ (if rcv then [] else [(nextTimer s, 10000, BulkTimeout (nextObject s))])
                  @ [(t, 10000, BulkTimeout tok)])"
  using assms
  by (simp add: on_message_def Let_def updateBulk_def updateBulk_request_def clearValues_def
        emit_def effect_def logger_log_def setTimeout_def suspend_def emitted_def
        emitted_of_append split: prod.splits)

theorem avatar_change_resets_witness:
  "rinfo_address \<lparr>rinfo_address = ''127.0.0.1'', rinfo_family = ''IPv4'', rinfo_port = 9000, rinfo_size = 20\<rparr>
     \<in> {''127.0.0.1''}
   \<and> address (\<lparr>address = ''/avatar/change'', args = Some [\<lparr>arg_type = ''s'', arg_value = JString ''avtr_1''\<rparr>]\<rparr> :: int OscMessage)
       = ''/avatar/change''
   \<and> entries (snd (on_message {''127.0.0.1''} 7 7 True
          \<lparr>address = ''/avatar/change'', args = Some [\<lparr>arg_type = ''s'', arg_value = JString ''avtr_1''\<rparr>]\<rparr>
          \<lparr>rinfo_address = ''127.0.0.1'', rinfo_family = ''IPv4'', rinfo_port = 9000, rinfo_size = 20\<rparr>
          (receivedParamValue (Some ''Speed'') (JNumber 1) False (fresh :: int OscConnection))))
       = Map.empty
   \<and> emitted (snd (on_message {''127.0.0.1''} 7 7 True
          \<lparr>address = ''/avatar/change'', args = Some [\<lparr>arg_type = ''s'', arg_value = JString ''avtr_1''\<rparr>]\<rparr>
          \<lparr>rinfo_address = ''127.0.0.1'', rinfo_family = ''IPv4'', rinfo_port = 9000, rinfo_size = 20\<rparr>
          (receivedParamValue (Some ''Speed'') (JNumber 1) False (fresh :: int OscConnection))))
       = [EvChange ''Speed'' JUndefined (JNumber 1), EvAdd ''Speed'' \<lparr>val = JNumber 1, delta = 0\<rparr>, EvClear]
   \<and> updateBulkAttempt (snd (on_message {''127.0.0.1''} 7 7 True
          \<lparr>address = ''/avatar/change'', args = Some [\<lparr>arg_type = ''s'', arg_value = JString ''avtr_1''\<rparr>]\<rparr>
          \<lparr>rinfo_address = ''127.0.0.1'', rinfo_family = ''IPv4'', rinfo_port = 9000, rinfo_size = 20\<rparr>
          (receivedParamValue (Some ''Speed'') (JNumber 1) False (fresh :: int OscConnection))))
       = Some 0"
proof -
  let ?r = "\<lparr>rinfo_address = ''127.0.0.1'', rinfo_family = ''IPv4'', rinfo_port = 9000, rinfo_size = 20\<rparr>"
  let ?m = "\<lparr>address = ''/avatar/change'', args = Some [\<lparr>arg_type = ''s'', arg_value = JString ''avtr_1''\<rparr>]\<rparr> :: int OscMessage"
  let ?s = "receivedParamValue (Some ''Speed'') (JNumber 1) False (fresh :: int OscConnection)"
  have h1: "rinfo_address ?r \<in> {''127.0.0.1''}" by simp
  have h2: "address ?m = ''/avatar/change''" by simp
  have e: "emitted ?s = [EvChange ''Speed'' JUndefined (JNumber 1), EvAdd ''Speed'' \<lparr>val = JNumber 1, delta = 0\<rparr>]"
    by (simp add: receivedParamValue_def fresh_def receivedUpdate_def new_OscValue_def Let_def
          emit_def effect_def emitted_def)
  have n: "nextObject ?s = 0"
    by (simp add: receivedParamValue_def fresh_def receivedUpdate_def new_OscValue_def Let_def
          emit_def effect_def)
  from avatar_change_resets [OF h1 h2, of 7 7 True ?s]
  show ?thesis using h1 h2 by (simp add: Let_def e n)
qed

subsection \<open>Two updates of one parameter; clearing the store\<close>

lemma entries_updateBulk [simp]: "entries (updateBulk s) = entries s"
  by (simp add: updateBulk_def updateBulk_request_def Let_def split_beta setTimeout_def
        suspend_def effect_def)

text \<open>
  Claim C8, as amended. After two updates of the parameter \<^verbatim>\<open>Speed\<close> from a trusted
  sender, first to \<open>a\<close>, then to \<open>b\<close>, on a store with no cell of that name, the cell
  holds \<open>b\<close> and the delta \<open>0 + \<bar>b - a\<bar>\<close>, in the arithmetic of the numbers. For the
  doubles nearest to 0.5 and to 0.8 that delta is \<open>1351079888211149 / 2 ^ 52\<close>, which is
  0.30000000000000004.
\<close>

theorem two_updates_of_one_parameter:
  assumes "rinfo_address rinfo \<in> myAddresses" and "entries s ''Speed'' = None"
  shows "(let m = (\<lambda>v. \<lparr>address = ''/avatar/parameters/Speed'',
                         args = Some [\<lparr>arg_type = ty, arg_value = JNumber v\<rparr>]\<rparr>);
              (r1, s1) = on_message myAddresses t1 t2 rcv (m a) rinfo s;
              (r2, s2) = on_message myAddresses t3 t4 r1 (m b) rinfo s1
          in entries s2 ''Speed'' = Some \<lparr>val = JNumber b, delta = 0 + \<bar>b - a\<bar>\<rparr>)"
  using assms
  by (simp add: on_message_def Let_def parseParamFromPath_def first_value_def
        entries_receivedParamValue cell_of_def receivedUpdate_def new_OscValue_def logger_log_def)

theorem two_updates_of_one_parameter_witness:
  "(let rinfo = \<lparr>rinfo_address = ''127.0.0.1'', rinfo_family = ''IPv4'', rinfo_port = 9000, rinfo_size = 40\<rparr>;
        m = (\<lambda>v. \<lparr>address = ''/avatar/parameters/Speed'',
                   args = Some [\<lparr>arg_type = ''d'', arg_value = JNumber v\<rparr>]\<rparr>);
        (r1, s1) = on_message {''127.0.0.1''} 1 1 False (m (dyadic 1 1)) rinfo (fresh :: real OscConnection);
        (r2, s2) = on_message {''127.0.0.1''} 2 2 r1 (m (dyadic 3602879701896397 52)) rinfo s1
    in entries s2 ''Speed''
         = Some \<lparr>val = JNumber (dyadic 3602879701896397 52), delta = dyadic 1351079888211149 52\<rparr>)"
proof -
  have h: "rinfo_address \<lparr>rinfo_address = ''127.0.0.1'', rinfo_family = ''IPv4'', rinfo_port = 9000, rinfo_size = 40\<rparr>
             \<in> {''127.0.0.1''}" by simp
  have e: "entries (fresh :: real OscConnection) ''Speed'' = None" by (simp add: fresh_def)
  have "(0::real) + \<bar>dyadic 3602879701896397 52 - dyadic 1 1\<bar> = dyadic 1351079888211149 52"
    by (simp add: dyadic_def)
  with two_updates_of_one_parameter
         [OF h e, of "''d''" 1 1 False "dyadic 1 1" 2 2 "dyadic 3602879701896397 52"]
  show ?thesis by (simp add: Let_def)
qed

text \<open>
  Claim C8, as stated, fails. The double nearest to 0.5 is \<open>1 / 2\<close>, the one nearest to
  0.8 is \<open>3602879701896397 / 2 ^ 52\<close>. From a trusted sender, on a fresh store, the two
  updates leave the delta \<open>1351079888211149 / 2 ^ 52\<close>: it is \<open>5404319552844596 / 2 ^ 54\<close>
  with a numerator of 53 bits, so a double, and the subtraction was exact. It is not
  three tenths, and it is not the double nearest to three tenths, which is
  \<open>5404319552844595 / 2 ^ 54\<close>. When the two values are sent as 32-bit floats, the second
  arrives as \<open>13421773 / 2 ^ 24\<close> and the delta is \<open>5033165 / 2 ^ 24\<close>, which is neither
  of the two.
\<close>

theorem speed_delta_is_not_three_tenths:
  "entries (run [SocketMessage 1 {''127.0.0.1''} 1 1
                   \<lparr>address = ''/avatar/parameters/Speed'',
                    args = Some [\<lparr>arg_type = ''d'', arg_value = JNumber (dyadic 1 1)\<rparr>]\<rparr>
                   \<lparr>rinfo_address = ''127.0.0.1'', rinfo_family = ''IPv4'', rinfo_port = 9000, rinfo_size = 40\<rparr>,
                 SocketMessage 1 {''127.0.0.1''} 2 2
                   \<lparr>address = ''/avatar/parameters/Speed'',
                    args = Some [\<lparr>arg_type = ''d'', arg_value = JNumber (dyadic 3602879701896397 52)\<rparr>]\<rparr>
                   \<lparr>rinfo_address = ''127.0.0.1'', rinfo_family = ''IPv4'', rinfo_port = 9000, rinfo_size = 40\<rparr>]
              fresh) ''Speed''
     = Some \<lparr>val = JNumber (dyadic 3602879701896397 52), delta = dyadic 1351079888211149 52\<rparr>
   \<and> dyadic 1 1 = 5 / 10
   \<and> \<bar>dyadic 3602879701896397 52 - 8 / 10\<bar> < 1 / 2 ^ 54
   \<and> dyadic 1351079888211149 52 = dyadic 5404319552844596 54
   \<and> (2::int) ^ 52 \<le> 5404319552844596 \<and> (5404319552844596::int) < 2 ^ 53
   \<and> dyadic 1351079888211149 52 \<noteq> 3 / 10
   \<and> \<bar>dyadic 5404319552844595 54 - 3 / 10\<bar> < 1 / 2 ^ 55
   \<and> dyadic 1351079888211149 52 \<noteq> dyadic 5404319552844595 54
   \<and> entries (run [SocketMessage 1 {''127.0.0.1''} 1 1
                     \<lparr>address = ''/avatar/parameters/Speed'',
                      args = Some [\<lparr>arg_type = ''f'', arg_value = JNumber (dyadic 1 1)\<rparr>]\<rparr>
                     \<lparr>rinfo_address = ''127.0.0.1'', rinfo_family = ''IPv4'', rinfo_port = 9000, rinfo_size = 36\<rparr>,
                   SocketMessage 1 {''127.0.0.1''} 2 2
                     \<lparr>address = ''/avatar/parameters/Speed'',
                      args = Some [\<lparr>arg_type = ''f'', arg_value = JNumber (dyadic 13421773 24)\<rparr>]\<rparr>
                     \<lparr>rinfo_address = ''127.0.0.1'', rinfo_family = ''IPv4'', rinfo_port = 9000, rinfo_size = 36\<rparr>]
                fresh) ''Speed''
       = Some \<lparr>val = JNumber (dyadic 13421773 24), delta = dyadic 5033165 24\<rparr>
   \<and> \<bar>dyadic 13421773 24 - 8 / 10\<bar> < 1 / 2 ^ 25
   \<and> dyadic 5033165 24 \<noteq> 3 / 10
   \<and> dyadic 5033165 24 \<noteq> dyadic 5404319552844595 54"
  apply (intro conjI)
              apply (simp add: step_def on_message_def Let_def parseParamFromPath_def first_value_def
      receivedParamValue_def receivedUpdate_def new_OscValue_def logger_log_def fresh_def
      updateBulk_def updateBulk_request_def setTimeout_def suspend_def effect_def emit_def
      dyadic_def)
             apply (simp add: dyadic_def)
            apply (simp add: dyadic_def)
           apply (simp add: dyadic_def)
          apply simp
         apply simp
        apply (simp add: dyadic_def)
       apply (simp add: dyadic_def)
      apply (simp add: dyadic_def)
     apply (simp add: step_def on_message_def Let_def parseParamFromPath_def first_value_def
      receivedParamValue_def receivedUpdate_def new_OscValue_def logger_log_def fresh_def
      updateBulk_def updateBulk_request_def setTimeout_def suspend_def effect_def emit_def
      dyadic_def)
    apply (simp add: dyadic_def)
   apply (simp add: dyadic_def)
  apply (simp add: dyadic_def)
  done

text \<open>
  Extra X2. \<^verbatim>\<open>clearValues\<close> removes every cell and emits \<^verbatim>\<open>'clear'\<close>; an update of any
  name afterwards makes a new cell with delta 0.
\<close>

theorem clearValues_then_update:
  "entries (clearValues s) = Map.empty
   \<and> emitted (clearValues s) = emitted s @ [EvClear]
   \<and> (v \<noteq> JUndefined \<longrightarrow>
        entries (receivedParamValue (Some p) v b (clearValues s)) p = Some \<lparr>val = v, delta = 0\<rparr>)"
  by (simp add: clearValues_def emit_def effect_def emitted_def emitted_of_append
        receivedParamValue_def receivedUpdate_def new_OscValue_def Let_def)

theorem clearValues_then_update_witness:
  "JNumber (4::int) \<noteq> JUndefined
   \<and> entries (receivedParamValue (Some ''Speed'') (JNumber 4) False
        (clearValues (receivedParamValue (Some ''Speed'') (JNumber 1) False (fresh :: int OscConnection))))
        ''Speed''
       = Some \<lparr>val = JNumber 4, delta = 0\<rparr>"
  using clearValues_then_update
    [of "receivedParamValue (Some ''Speed'') (JNumber 1) False (fresh :: int OscConnection)"
        "JNumber 4" "''Speed''" False]
  by simp

subsection \<open>Invariants of the event loop\<close>

text \<open>
  Each handler changes few fields: the store and the trace, or the trace alone. The two
  invariants, \<open>timers_ok\<close> and \<open>superseded tok\<close>, are kept by every stretch and so by
  every event and every run.
\<close>

lemma receivedParamValue_shape:
  "\<exists>en tr. receivedParamValue q v b s = s\<lparr>entries := en, trace := tr\<rparr>"
proof (cases "receivedParamValue q v b s = s")
  case True
  then have "receivedParamValue q v b s = s\<lparr>entries := entries s, trace := trace s\<rparr>" by simp
  then show ?thesis by blast
next
  case False
  then show ?thesis
    by (auto simp: receivedParamValue_def Let_def emit_def effect_def
          split: option.splits prod.splits if_splits)
qed

lemma updateBulk_nodes_shape:
  "\<exists>en tr. updateBulk_nodes nodes s = s\<lparr>entries := en, trace := tr\<rparr>"
proof (induction nodes arbitrary: s)
  case Nil
  have "updateBulk_nodes [] s = s\<lparr>entries := entries s, trace := trace s\<rparr>" by simp
  then show ?case by blast
next
  case (Cons n ns)
  obtain en tr where a: "updateBulk_node n s = s\<lparr>entries := en, trace := tr\<rparr>"
    unfolding updateBulk_node_def using receivedParamValue_shape by blast
  obtain en' tr' where b: "updateBulk_nodes ns (s\<lparr>entries := en, trace := tr\<rparr>)
      = s\<lparr>entries := en, trace := tr\<rparr>\<lparr>entries := en', trace := tr'\<rparr>"
    using Cons by blast
  show ?case using a b by auto
qed

lemma udpClient_send_shape: "\<exists>tr. snd (udpClient_send msg prt addr s) = s\<lparr>trace := tr\<rparr>"
proof -
  have same: "s = s\<lparr>trace := trace s\<rparr>" by simp
  show ?thesis
  proof (cases "fst (udpClient_send msg prt addr s)")
    case None
    then have "snd (udpClient_send msg prt addr s)
                 = s\<lparr>trace := trace s @ [UdpSend msg (port_of prt) addr]\<rparr>"
      by (cases prt) (auto simp: udpClient_send_def effect_def split: if_splits)
    then show ?thesis by blast
  next
    case (Some e)
    then have "snd (udpClient_send msg prt addr s) = s"
      by (cases prt) (auto simp: udpClient_send_def effect_def split: if_splits)
    with same show ?thesis by metis
  qed
qed

lemma proxy_loop_shape: "\<exists>tr. snd (proxy_loop msg ps s) = s\<lparr>trace := tr\<rparr>"
proof (induction ps arbitrary: s)
  case Nil
  have "snd (proxy_loop msg [] s) = s\<lparr>trace := trace s\<rparr>" by simp
  then show ?case by blast
next
  case (Cons p ps)
  obtain a prt where ap: "parsePort (Some (js_trim p)) (units ''127.0.0.1'') (Whole 0) = (a, prt)"
    by (cases "parsePort (Some (js_trim p)) (units ''127.0.0.1'') (Whole 0)") auto
  obtain x s1 where u: "udpClient_send msg prt a s = (x, s1)"
    by (cases "udpClient_send msg prt a s") auto
  obtain tr1 where s1: "s1 = s\<lparr>trace := tr1\<rparr>"
    using udpClient_send_shape [of msg prt a s] u by auto
  show ?case
  proof (cases "positive prt")
    case False
    then show ?thesis using ap Cons [of s] by simp
  next
    case True
    show ?thesis
    proof (cases x)
      case (Some e)
      then have "snd (proxy_loop msg (p # ps) s) = s\<lparr>trace := tr1\<rparr>"
        using ap True u s1 by simp
      then show ?thesis by blast
    next
      case None
      obtain tr where "snd (proxy_loop msg ps s1) = s1\<lparr>trace := tr\<rparr>"
        using Cons by blast
      then have "snd (proxy_loop msg (p # ps) s) = s\<lparr>trace := tr\<rparr>"
        using ap True u s1 None by simp
      then show ?thesis by blast
    qed
  qed
qed

lemma timers_ok_frame [simp]:
  "timers_ok (s\<lparr>entries := en\<rparr>) = timers_ok s"
  "timers_ok (s\<lparr>trace := tr\<rparr>) = timers_ok s"
  "timers_ok (s\<lparr>suspended := su\<rparr>) = timers_ok s"
  "timers_ok (s\<lparr>waitingForBulk := w\<rparr>) = timers_ok s"
  "timers_ok (s\<lparr>updateBulkAttempt := u\<rparr>) = timers_ok s"
  "timers_ok (s\<lparr>nextObject := n\<rparr>) = timers_ok s"
  "timers_ok (s\<lparr>receivedOne := r\<rparr>) = timers_ok s"
  "timers_ok (s\<lparr>socketopen := b\<rparr>) = timers_ok s"
  "timers_ok (s\<lparr>oscSocket := so\<rparr>) = timers_ok s"
  "timers_ok (s\<lparr>oscQuery := q\<rparr>) = timers_ok s"
  "timers_ok (s\<lparr>port := p\<rparr>) = timers_ok s"
  "timers_ok (s\<lparr>lastPacket := n\<rparr>) = timers_ok s"
  "timers_ok (s\<lparr>lastReceiveTime := n\<rparr>) = timers_ok s"
  "timers_ok (s\<lparr>recentlyRcvdOscCmds := n\<rparr>) = timers_ok s"
  by (simp_all add: timers_ok_def)

lemma superseded_frame [simp]:
  "superseded tok (s\<lparr>entries := en\<rparr>) = superseded tok s"
  "superseded tok (s\<lparr>trace := tr\<rparr>) = superseded tok s"
  "superseded tok (s\<lparr>suspended := su\<rparr>) = superseded tok s"
  "superseded tok (s\<lparr>waitingForBulk := w\<rparr>) = superseded tok s"
  "superseded tok (s\<lparr>timers := ts\<rparr>) = superseded tok s"
  "superseded tok (s\<lparr>nextTimer := n\<rparr>) = superseded tok s"
  "superseded tok (s\<lparr>retryTimeout := rt\<rparr>) = superseded tok s"
  "superseded tok (s\<lparr>receivedOne := r\<rparr>) = superseded tok s"
  "superseded tok (s\<lparr>socketopen := b\<rparr>) = superseded tok s"
  "superseded tok (s\<lparr>oscSocket := so\<rparr>) = superseded tok s"
  "superseded tok (s\<lparr>oscQuery := q\<rparr>) = superseded tok s"
  "superseded tok (s\<lparr>port := p\<rparr>) = superseded tok s"
  "superseded tok (s\<lparr>lastPacket := n\<rparr>) = superseded tok s"
  "superseded tok (s\<lparr>lastReceiveTime := n\<rparr>) = superseded tok s"
  "superseded tok (s\<lparr>recentlyRcvdOscCmds := n\<rparr>) = superseded tok s"
  by (simp_all add: superseded_def)

lemma timers_ok_setTimeout:
  "timers_ok s \<Longrightarrow> k \<noteq> RetryOpenSocket \<Longrightarrow> timers_ok (snd (setTimeout k ms s))"
  by (fastforce simp: timers_ok_def setTimeout_def)

lemma superseded_setTimeout [simp]: "superseded tok (snd (setTimeout k ms s)) = superseded tok s"
  by (simp add: setTimeout_def)

lemma timers_ok_cancel: "timers_ok s \<Longrightarrow> timers_ok (cancel_timer i s)"
  by (auto simp: timers_ok_def cancel_timer_def distinct_map_filter)

lemma timers_ok_updateBulk_request: "timers_ok s \<Longrightarrow> timers_ok (updateBulk_request tok s)"
  using timers_ok_setTimeout [of "effect (GetBulk tok) s" "BulkTimeout tok" 10000]
  by (simp add: updateBulk_request_def Let_def suspend_def effect_def split_beta)

lemma superseded_updateBulk_request [simp]:
  "superseded tok (updateBulk_request tok' s) = superseded tok s"
  using superseded_setTimeout [of tok "BulkTimeout tok'" 10000 "effect (GetBulk tok') s"]
  by (simp add: updateBulk_request_def Let_def suspend_def effect_def split_beta)

lemma timers_ok_updateBulk: "timers_ok s \<Longrightarrow> timers_ok (updateBulk s)"
  by (simp add: updateBulk_def Let_def timers_ok_updateBulk_request)

lemma superseded_updateBulk: "superseded tok s \<Longrightarrow> superseded tok (updateBulk s)"
  by (simp add: updateBulk_def Let_def) (simp add: superseded_def)

lemma timers_ok_updateBulk_catch: "timers_ok s \<Longrightarrow> timers_ok (updateBulk_catch tok e s)"
  using timers_ok_setTimeout [of "logger_log [LStr ''Error fetching bulk info: '', LErr e] s" "BulkBackoff tok" 100]
  by (simp add: updateBulk_catch_def Let_def logger_log_def effect_def split_beta)

lemma superseded_updateBulk_catch [simp]:
  "superseded tok (updateBulk_catch tok' e s) = superseded tok s"
  using superseded_setTimeout [of tok "BulkBackoff tok'" 100 "logger_log [LStr ''Error fetching bulk info: '', LErr e] s"]
  by (simp add: updateBulk_catch_def Let_def logger_log_def effect_def split_beta)

lemma timers_ok_updateBulk_nodes: "timers_ok (updateBulk_nodes nodes s) = timers_ok s"
proof -
  obtain en tr where "updateBulk_nodes nodes s = s\<lparr>entries := en, trace := tr\<rparr>"
    using updateBulk_nodes_shape by blast
  then show ?thesis by simp
qed

lemma superseded_updateBulk_nodes: "superseded tok (updateBulk_nodes nodes s) = superseded tok s"
proof -
  obtain en tr where "updateBulk_nodes nodes s = s\<lparr>entries := en, trace := tr\<rparr>"
    using updateBulk_nodes_shape by blast
  then show ?thesis by simp
qed

lemma timers_ok_updateBulk_settled: "timers_ok s \<Longrightarrow> timers_ok (updateBulk_settled tok outcome s)"
  by (cases outcome)
     (auto simp: updateBulk_settled_def Let_def timers_ok_updateBulk_catch
        timers_ok_updateBulk_nodes split: option.splits)

lemma superseded_updateBulk_settled:
  "superseded tok (updateBulk_settled tok' outcome s) = superseded tok s"
  by (cases outcome)
     (auto simp: updateBulk_settled_def Let_def superseded_updateBulk_nodes split: option.splits)

lemma timers_ok_updateBulk_retry: "timers_ok s \<Longrightarrow> timers_ok (updateBulk_retry tok s)"
  by (simp add: updateBulk_retry_def timers_ok_updateBulk_request)

lemma superseded_updateBulk_retry: "superseded tok (updateBulk_retry tok' s) = superseded tok s"
  by (simp add: updateBulk_retry_def)

lemma timers_ok_receivedParamValue: "timers_ok (receivedParamValue q v b s) = timers_ok s"
proof -
  obtain en tr where "receivedParamValue q v b s = s\<lparr>entries := en, trace := tr\<rparr>"
    using receivedParamValue_shape by blast
  then show ?thesis by simp
qed

lemma superseded_receivedParamValue: "superseded tok (receivedParamValue q v b s) = superseded tok s"
proof -
  obtain en tr where "receivedParamValue q v b s = s\<lparr>entries := en, trace := tr\<rparr>"
    using receivedParamValue_shape by blast
  then show ?thesis by simp
qed

lemma timers_ok_on_message:
  "timers_ok s \<Longrightarrow> timers_ok (snd (on_message A t1 t2 rcv m rinfo s))"
  by (simp add: on_message_def Let_def timers_ok_updateBulk timers_ok_receivedParamValue
        clearValues_def emit_def effect_def logger_log_def)

lemma superseded_on_message:
  "superseded tok s \<Longrightarrow> superseded tok (snd (on_message A t1 t2 rcv m rinfo s))"
  by (simp add: on_message_def Let_def superseded_updateBulk superseded_receivedParamValue
        clearValues_def emit_def effect_def logger_log_def)

lemma on_data_shape: "\<exists>tr. snd (on_data cfg msg s) = s\<lparr>trace := tr\<rparr>"
proof -
  have same: "s = s\<lparr>trace := trace s\<rparr>" by simp
  show ?thesis
  proof (cases "cfg ''osc.proxy''")
    case None
    then have "snd (on_data cfg msg s) = s" unfolding on_data_def by simp
    with same show ?thesis by metis
  next
    case (Some proxyPort)
    show ?thesis
    proof (cases "proxyPort = []")
      case True
      with Some have "snd (on_data cfg msg s) = s" unfolding on_data_def by simp
      with same show ?thesis by metis
    next
      case False
      with Some have "on_data cfg msg s = proxy_loop msg (js_split (of_char CHR '','') proxyPort) s"
        unfolding on_data_def by simp
      then show ?thesis using proxy_loop_shape by metis
    qed
  qed
qed

lemma timers_ok_on_data: "timers_ok (snd (on_data cfg msg s)) = timers_ok s"
proof -
  obtain tr where "snd (on_data cfg msg s) = s\<lparr>trace := tr\<rparr>"
    using on_data_shape by blast
  then show ?thesis by simp
qed

lemma superseded_on_data: "superseded tok (snd (on_data cfg msg s)) = superseded tok s"
proof -
  obtain tr where "snd (on_data cfg msg s) = s\<lparr>trace := tr\<rparr>"
    using on_data_shape by blast
  then show ?thesis by simp
qed

lemma timers_ok_openSocket: "timers_ok (openSocket s) = timers_ok s"
  by (simp add: openSocket_def suspend_def effect_def)

lemma superseded_openSocket: "superseded tok (openSocket s) = superseded tok s"
  by (simp add: openSocket_def suspend_def effect_def)

lemma timers_ok_openSocket_port: "timers_ok (openSocket_port r s) = timers_ok s"
  by (cases r)
     (simp_all add: openSocket_port_def openSocketUnsafe_port_def openSocket_catch_def error_def
        Let_def suspend_def effect_def logger_log_def)

lemma superseded_openSocket_port: "superseded tok s \<Longrightarrow> superseded tok (openSocket_port r s)"
  by (cases r)
     (simp_all add: openSocket_port_def openSocketUnsafe_port_def openSocket_catch_def error_def
        Let_def suspend_def effect_def logger_log_def superseded_def)

lemma timers_ok_openSocket_started: "timers_ok (openSocket_started p r x s) = timers_ok s"
  by (cases r; cases x)
     (simp_all add: openSocket_started_def openSocketUnsafe_started_def openSocket_catch_def
        error_def Let_def suspend_def effect_def logger_log_def)

lemma superseded_openSocket_started:
  "superseded tok s \<Longrightarrow> superseded tok (openSocket_started p r x s)"
  by (cases r; cases x)
     (simp_all add: openSocket_started_def openSocketUnsafe_started_def openSocket_catch_def
        error_def Let_def suspend_def effect_def logger_log_def superseded_def)

lemma timers_ok_reschedule:
  assumes "timers_ok s"
  shows "timers_ok ((snd (setTimeout RetryOpenSocket ms (clearTimeout (retryTimeout s) s)))
                      \<lparr>retryTimeout := Some (nextTimer s)\<rparr>)"
  using assms
  by (cases "retryTimeout s")
     (auto simp: clearTimeout_def setTimeout_def timers_ok_def distinct_map_filter)

lemma delayRetry_timers:
  "\<exists>s1. delayRetry s = (snd (setTimeout RetryOpenSocket 1000 (clearTimeout (retryTimeout s1) s1)))
                              \<lparr>retryTimeout := Some (nextTimer s1)\<rparr>
        \<and> timers s1 = timers s \<and> nextTimer s1 = nextTimer s \<and> retryTimeout s1 = retryTimeout s"
proof -
  define s2 where
    "s2 = clearValues (s\<lparr>socketopen := False, updateBulkAttempt := None, waitingForBulk := False\<rparr>)"
  define s3 where
    "s3 = (case oscSocket s2 of
             Some k \<Rightarrow> (effect (SocketClose k) s2)\<lparr>oscSocket := None\<rparr>
           | None \<Rightarrow> s2)"
  define s4 where
    "s4 = (case oscQuery s3 of
             Some q \<Rightarrow> (effect (QueryStop q) s3)\<lparr>oscQuery := None\<rparr>
           | None \<Rightarrow> s3)"
  have f2: "timers s2 = timers s \<and> nextTimer s2 = nextTimer s \<and> retryTimeout s2 = retryTimeout s"
    by (simp add: s2_def clearValues_def emit_def effect_def)
  have f3: "timers s3 = timers s2 \<and> nextTimer s3 = nextTimer s2 \<and> retryTimeout s3 = retryTimeout s2"
    by (simp add: s3_def effect_def split: option.splits)
  have f4: "timers s4 = timers s3 \<and> nextTimer s4 = nextTimer s3 \<and> retryTimeout s4 = retryTimeout s3"
    by (simp add: s4_def effect_def split: option.splits)
  have n: "nextTimer (clearTimeout (retryTimeout s4) s4) = nextTimer s4"
    by (simp add: clearTimeout_def split: option.splits)
  have "delayRetry s = (snd (setTimeout RetryOpenSocket 1000 (clearTimeout (retryTimeout s4) s4)))
                              \<lparr>retryTimeout := Some (nextTimer s4)\<rparr>"
    unfolding delayRetry_def Let_def s2_def [symmetric] s3_def [symmetric] s4_def [symmetric]
    by (simp add: split_beta setTimeout_def n)
  with f2 f3 f4 show ?thesis by metis
qed

lemma timers_ok_delayRetry: "timers_ok s \<Longrightarrow> timers_ok (delayRetry s)"
proof -
  assume ok: "timers_ok s"
  obtain s1 where d: "delayRetry s = (snd (setTimeout RetryOpenSocket 1000 (clearTimeout (retryTimeout s1) s1)))
                              \<lparr>retryTimeout := Some (nextTimer s1)\<rparr>"
    and f: "timers s1 = timers s" "nextTimer s1 = nextTimer s" "retryTimeout s1 = retryTimeout s"
    using delayRetry_timers by blast
  from ok f have "timers_ok s1" by (simp add: timers_ok_def)
  then show ?thesis unfolding d by (rule timers_ok_reschedule)
qed

lemma superseded_delayRetry: "tok < nextObject s \<Longrightarrow> superseded tok (delayRetry s)"
  by (auto simp: delayRetry_def Let_def clearValues_def emit_def effect_def clearTimeout_def
        setTimeout_def superseded_def split_beta split: option.splits)

lemma timers_ok_timer_fired: "timers_ok s \<Longrightarrow> timers_ok (timer_fired i s)"
  by (auto simp: timer_fired_def activity_tick_def logger_log_def effect_def timers_ok_cancel
        timers_ok_openSocket timers_ok_updateBulk_retry timers_ok_updateBulk_settled resume_def
        split: option.splits timer_kind.splits)

lemma superseded_cancel [simp]: "superseded tok (cancel_timer i s) = superseded tok s"
  by (simp add: cancel_timer_def)

lemma superseded_timer_fired: "superseded tok (timer_fired i s) = superseded tok s"
  by (auto simp: timer_fired_def activity_tick_def logger_log_def effect_def
        superseded_openSocket superseded_updateBulk_retry superseded_updateBulk_settled resume_def
        split: option.splits timer_kind.splits)

lemma timers_ok_step: "timers_ok s \<Longrightarrow> timers_ok (step e s)"
  by (cases e)
     (auto simp: step_def resume_def timers_ok_openSocket_port timers_ok_openSocket_started
        timers_ok_updateBulk_settled timers_ok_timer_fired on_ready_def on_error_def
        timers_ok_on_data timers_ok_delayRetry send_def clearDeltas_def logger_log_def effect_def
        split_beta Let_def timers_ok_on_message split: option.splits)

lemma superseded_step: "superseded tok s \<Longrightarrow> superseded tok (step e s)"
  by (cases e)
     (auto simp: step_def resume_def superseded_openSocket_port superseded_openSocket_started
        superseded_updateBulk_settled superseded_timer_fired on_ready_def on_error_def
        superseded_on_data superseded_delayRetry send_def clearDeltas_def logger_log_def effect_def
        split_beta Let_def superseded_on_message split: option.splits
        intro: superseded_delayRetry simp: superseded_def [of _ "s"])

lemma timers_ok_run: "timers_ok s \<Longrightarrow> timers_ok (run es s)"
  by (induction es arbitrary: s) (simp_all add: timers_ok_step)

lemma superseded_run: "superseded tok s \<Longrightarrow> superseded tok (run es s)"
  by (induction es arbitrary: s) (simp_all add: superseded_step)

lemma timers_ok_constructor: "timers_ok constructor"
  by (simp add: constructor_def fresh_def openSocket_def suspend_def effect_def setTimeout_def
        timers_ok_def Let_def)

subsection \<open>Retry timers and superseded attempts\<close>

lemma one_of_distinct:
  "distinct (map fst xs) \<Longrightarrow> \<forall>t \<in> set xs. fst t = i \<Longrightarrow> length xs \<le> Suc 0"
proof (cases xs)
  case Nil
  then show ?thesis by simp
next
  case (Cons a as)
  assume d: "distinct (map fst xs)" and e: "\<forall>t \<in> set xs. fst t = i"
  have "as = []"
  proof (cases as)
    case Nil
    then show ?thesis .
  next
    case (Cons b bs)
    with \<open>xs = a # as\<close> d e show ?thesis by auto
  qed
  with Cons show ?thesis by simp
qed

lemma retry_timers_le_one: "timers_ok s \<Longrightarrow> length (retry_timers s) \<le> 1"
proof -
  assume ok: "timers_ok s"
  have d: "distinct (map fst (retry_timers s))"
    using ok by (simp add: timers_ok_def retry_timers_def distinct_map_filter)
  show ?thesis
  proof (cases "retryTimeout s")
    case None
    with ok have "retry_timers s = []"
      by (auto simp: timers_ok_def retry_timers_def filter_empty_conv)
    then show ?thesis by simp
  next
    case (Some i)
    with ok have "\<forall>t \<in> set (retry_timers s). fst t = i"
      by (auto simp: timers_ok_def retry_timers_def)
    with d show ?thesis using one_of_distinct by fastforce
  qed
qed

lemma retry_timers_reschedule:
  assumes "timers_ok s"
  shows "retry_timers ((snd (setTimeout RetryOpenSocket ms (clearTimeout (retryTimeout s) s)))
                      \<lparr>retryTimeout := Some (nextTimer s)\<rparr>) = [(nextTimer s, ms, RetryOpenSocket)]"
proof (cases "retryTimeout s")
  case None
  with assms have "filter (\<lambda>t. snd (snd t) = RetryOpenSocket) (timers s) = []"
    by (auto simp: timers_ok_def filter_empty_conv)
  with None show ?thesis
    by (simp add: retry_timers_def setTimeout_def clearTimeout_def)
next
  case (Some i)
  with assms have "filter (\<lambda>t. snd (snd t) = RetryOpenSocket) (filter (\<lambda>t. fst t \<noteq> i) (timers s)) = []"
    by (auto simp: timers_ok_def filter_empty_conv)
  with Some show ?thesis
    by (simp add: retry_timers_def setTimeout_def clearTimeout_def)
qed

lemma retry_timers_delayRetry:
  "timers_ok s \<Longrightarrow> retry_timers (delayRetry s) = [(nextTimer s, 1000, RetryOpenSocket)]"
proof -
  assume ok: "timers_ok s"
  obtain s1 where d: "delayRetry s = (snd (setTimeout RetryOpenSocket 1000 (clearTimeout (retryTimeout s1) s1)))
                              \<lparr>retryTimeout := Some (nextTimer s1)\<rparr>"
    and f: "timers s1 = timers s" "nextTimer s1 = nextTimer s" "retryTimeout s1 = retryTimeout s"
    using delayRetry_timers by blast
  from ok f have "timers_ok s1" by (simp add: timers_ok_def)
  then have "retry_timers ((snd (setTimeout RetryOpenSocket 1000 (clearTimeout (retryTimeout s1) s1)))
                      \<lparr>retryTimeout := Some (nextTimer s1)\<rparr>) = [(nextTimer s1, 1000, RetryOpenSocket)]"
    by (rule retry_timers_reschedule)
  then show ?thesis unfolding d f(2) .
qed

text \<open>
  Claim C5. In every state a connection reaches from its constructor, whatever the
  events, at most one timer that retries \<^verbatim>\<open>openSocket\<close> is pending; and after a call of
  \<^verbatim>\<open>delayRetry\<close> in such a state exactly one is, the new one, with a delay of 1000 ms:
  the one that was pending before is cancelled.
\<close>

theorem at_most_one_retry_timer:
  "length (retry_timers (run es constructor)) \<le> 1
   \<and> retry_timers (delayRetry (run es constructor))
       = [(nextTimer (run es constructor), 1000, RetryOpenSocket)]"
proof -
  have ok: "timers_ok (run es constructor)"
    using timers_ok_constructor by (rule timers_ok_run)
  show ?thesis
    using retry_timers_le_one [OF ok] retry_timers_delayRetry [OF ok] by (rule conjI)
qed

theorem at_most_one_retry_timer_witness:
  "length (retry_timers (run [CallDelayRetry, CallDelayRetry, PortSettled (Inr 33776), CallDelayRetry]
                            (constructor :: int OscConnection))) = 1
   \<and> timers (run [CallDelayRetry, CallDelayRetry, PortSettled (Inr 33776), CallDelayRetry]
                 (constructor :: int OscConnection))
       = [(0, 15000, ActivityInterval), (3, 1000, RetryOpenSocket)]
   \<and> retry_timers (delayRetry (run [CallDelayRetry, CallDelayRetry, PortSettled (Inr 33776), CallDelayRetry]
                            (constructor :: int OscConnection)))
       = [(4, 1000, RetryOpenSocket)]"
proof -
  let ?R = "run [CallDelayRetry, CallDelayRetry, PortSettled (Inr 33776), CallDelayRetry]
                (constructor :: int OscConnection)"
  have t: "timers ?R = [(0, 15000, ActivityInterval), (3, 1000, RetryOpenSocket)]"
    by (simp add: constructor_def fresh_def openSocket_def suspend_def effect_def setTimeout_def
        step_def delayRetry_def clearValues_def emit_def clearTimeout_def Let_def resume_def
        openSocket_port_def openSocketUnsafe_port_def openSocket_catch_def logger_log_def)
  have n: "nextTimer ?R = 4"
    by (simp add: constructor_def fresh_def openSocket_def suspend_def effect_def setTimeout_def
        step_def delayRetry_def clearValues_def emit_def clearTimeout_def Let_def resume_def
        openSocket_port_def openSocketUnsafe_port_def openSocket_catch_def logger_log_def)
  have r: "length (retry_timers ?R) = 1"
    unfolding retry_timers_def t by simp
  have "retry_timers (delayRetry ?R) = [(nextTimer ?R, 1000, RetryOpenSocket)]"
    using at_most_one_retry_timer
      [of "[CallDelayRetry, CallDelayRetry, PortSettled (Inr 33776), CallDelayRetry] :: int event list"]
    by (rule conjunct2)
  then have d: "retry_timers (delayRetry ?R) = [(4, 1000, RetryOpenSocket)]"
    unfolding n .
  from r t d show ?thesis by (intro conjI)
qed

lemma requests_of_append: "requests_of (xs @ ys) = requests_of xs @ requests_of ys"
  by (induction xs rule: requests_of.induct) auto

lemma stale_settled:
  assumes "updateBulkAttempt s \<noteq> Some tok"
  shows "entries (updateBulk_settled tok outcome s) = entries s
         \<and> emitted (updateBulk_settled tok outcome s) = emitted s
         \<and> bulk_requests (updateBulk_settled tok outcome s) = bulk_requests s"
  using assms
  by (cases outcome)
     (auto simp: updateBulk_settled_def isStillValid_def updateBulk_catch_def Let_def split_beta
        setTimeout_def logger_log_def effect_def emitted_def emitted_of_append bulk_requests_def
        requests_of_append split: option.splits)

lemma stale_retry:
  assumes "updateBulkAttempt s \<noteq> Some tok"
  shows "updateBulk_retry tok s = s\<lparr>waitingForBulk := False\<rparr>"
  using assms by (simp add: updateBulk_retry_def isStillValid_def)

lemma stale_attempt_event:
  assumes "updateBulkAttempt s \<noteq> Some tok" and "attempt_event tok s e"
  shows "entries (step e s) = entries s \<and> emitted (step e s) = emitted s
         \<and> bulk_requests (step e s) = bulk_requests s"
proof (cases e)
  case (BulkSettled tok' t outcome)
  with assms(2) have [simp]: "tok' = tok" by (simp add: attempt_event_def)
  have "updateBulkAttempt (resume (AwaitBulk tok t) s) \<noteq> Some tok"
    using assms(1) by (simp add: resume_def)
  from stale_settled [OF this, of outcome] show ?thesis
    using BulkSettled by (simp add: step_def resume_def emitted_def bulk_requests_def)
next
  case (TimerFired i)
  have c: "updateBulkAttempt (cancel_timer i s) \<noteq> Some tok"
    using assms(1) by (simp add: cancel_timer_def)
  have r: "updateBulkAttempt (resume (AwaitBulk tok i) (cancel_timer i s)) \<noteq> Some tok"
    using assms(1) by (simp add: cancel_timer_def resume_def)
  from assms(2) TimerFired
  consider ms j where "find (\<lambda>t. fst t = i) (timers s) = Some (j, ms, BulkTimeout tok)"
    | ms j where "find (\<lambda>t. fst t = i) (timers s) = Some (j, ms, BulkBackoff tok)"
    by (auto simp: attempt_event_def split: option.splits timer_kind.splits)
  then show ?thesis
  proof cases
    case 1
    then show ?thesis
      using TimerFired stale_settled [OF r, of "Inl (Error ''Timed out'')"]
      by (simp add: step_def timer_fired_def cancel_timer_def resume_def emitted_def
            bulk_requests_def)
  next
    case 2
    then show ?thesis
      using TimerFired stale_retry [OF c]
      by (simp add: step_def timer_fired_def cancel_timer_def emitted_def bulk_requests_def)
  qed
qed (use assms(2) in \<open>simp_all add: attempt_event_def\<close>)

text \<open>
  Claim C3. Let the token \<open>tok\<close> have been minted, and let it be superseded: by
  \<^verbatim>\<open>delayRetry\<close>, by a newer \<^verbatim>\<open>updateBulk\<close>, or because it is not the current token
  anyway. Then after any further events, an event that continues the attempt of \<open>tok\<close>
  (the answer to its \<^verbatim>\<open>getBulk()\<close>, its time-out, the end of its wait of 100 ms) makes
  and changes no cell, emits nothing, and calls \<^verbatim>\<open>getBulk()\<close> no more.
\<close>

theorem superseded_attempt_never_mutates:
  assumes minted: "tok < nextObject s0"
      and sup: "s = delayRetry s0 \<or> s = updateBulk s0 \<or> (s = s0 \<and> updateBulkAttempt s0 \<noteq> Some tok)"
      and ev: "attempt_event tok (run es s) e"
  shows "entries (step e (run es s)) = entries (run es s)
         \<and> emitted (step e (run es s)) = emitted (run es s)
         \<and> bulk_requests (step e (run es s)) = bulk_requests (run es s)"
proof -
  have "superseded tok s"
    using sup
  proof (elim disjE)
    assume "s = delayRetry s0"
    with minted show ?thesis by (simp add: superseded_delayRetry)
  next
    assume "s = updateBulk s0"
    moreover have "superseded tok (updateBulk s0)"
      using minted
      by (simp add: updateBulk_def Let_def) (simp add: superseded_def)
    ultimately show ?thesis by simp
  next
    assume "s = s0 \<and> updateBulkAttempt s0 \<noteq> Some tok"
    with minted show ?thesis by (simp add: superseded_def)
  qed
  then have "superseded tok (run es s)" by (rule superseded_run)
  then have "updateBulkAttempt (run es s) \<noteq> Some tok" by (simp add: superseded_def)
  from stale_attempt_event [OF this ev] show ?thesis .
qed

theorem superseded_attempt_never_mutates_witness:
  "0 < nextObject (updateBulk (fresh :: int OscConnection))
   \<and> updateBulkAttempt (updateBulk (fresh :: int OscConnection)) = Some 0
   \<and> attempt_event 0 (run [CallClearDeltas] (delayRetry (updateBulk (fresh :: int OscConnection))))
        (BulkSettled 0 0 (Inr (Some [\<lparr>full_path = Some ''/avatar/parameters/foo'',
                                      arguments = Some [\<lparr>arg_type = ''f'', arg_value = JNumber 2\<rparr>]\<rparr>])))
   \<and> AwaitBulk 0 0 \<in> set (suspended (run [CallClearDeltas] (delayRetry (updateBulk (fresh :: int OscConnection)))))
   \<and> entries (step (BulkSettled 0 0 (Inr (Some [\<lparr>full_path = Some ''/avatar/parameters/foo'',
                                      arguments = Some [\<lparr>arg_type = ''f'', arg_value = JNumber 2\<rparr>]\<rparr>])))
               (run [CallClearDeltas] (delayRetry (updateBulk (fresh :: int OscConnection)))))
       = Map.empty"
proof -
  let ?s0 = "updateBulk (fresh :: int OscConnection)"
  let ?e = "BulkSettled 0 0 (Inr (Some [\<lparr>full_path = Some ''/avatar/parameters/foo'',
                                      arguments = Some [\<lparr>arg_type = ''f'', arg_value = JNumber (2::int)\<rparr>]\<rparr>]))"
  have n: "0 < nextObject ?s0" and u: "updateBulkAttempt ?s0 = Some 0"
    by (simp_all add: updateBulk_def updateBulk_request_def fresh_def Let_def setTimeout_def
          suspend_def effect_def)
  have a: "attempt_event 0 (run [CallClearDeltas] (delayRetry ?s0)) ?e"
    by (simp add: attempt_event_def)
  have w: "AwaitBulk 0 0 \<in> set (suspended (run [CallClearDeltas] (delayRetry ?s0)))"
    by (simp add: updateBulk_def updateBulk_request_def fresh_def Let_def setTimeout_def
          suspend_def effect_def step_def clearDeltas_def delayRetry_def clearValues_def emit_def
          clearTimeout_def)
  have c: "entries (run [CallClearDeltas] (delayRetry ?s0)) = Map.empty"
    by (simp add: updateBulk_def updateBulk_request_def fresh_def Let_def setTimeout_def
          suspend_def effect_def step_def clearDeltas_def delayRetry_def clearValues_def emit_def
          clearTimeout_def)
  have "entries (step ?e (run [CallClearDeltas] (delayRetry ?s0)))
          = entries (run [CallClearDeltas] (delayRetry ?s0))"
    using superseded_attempt_never_mutates [OF n _ a] by blast
  with n u a w c show ?thesis by (simp only: simp_thms)
qed

subsection \<open>The raw-forward path\<close>

lemma proxy_loop_forwards:
  "proxy_loop msg ps s =
     (let ts = filter (\<lambda>(a, p). positive p)
                 (map (\<lambda>e. parsePort (Some (js_trim e)) (units ''127.0.0.1'') (Whole 0)) ps)
      in (if list_all accepted ts then None else Some (Error ''ERR_SOCKET_BAD_PORT''),
          s\<lparr>trace := trace s @ map (\<lambda>(a, p). UdpSend msg (port_of p) a) (takeWhile accepted ts)\<rparr>))"
proof (induction ps arbitrary: s)
  case Nil
  show ?case by simp
next
  case (Cons p ps)
  obtain a prt where ap: "parsePort (Some (js_trim p)) (units ''127.0.0.1'') (Whole 0) = (a, prt)"
    by (cases "parsePort (Some (js_trim p)) (units ''127.0.0.1'') (Whole 0)") auto
  show ?case
  proof (cases "positive prt")
    case False
    then show ?thesis using ap Cons [of s] by (simp add: Let_def)
  next
    case True
    show ?thesis
    proof (cases "accepted (a, prt)")
      case False
      then have "udpClient_send msg prt a s = (Some (Error ''ERR_SOCKET_BAD_PORT''), s)"
        by (cases prt) (auto simp: udpClient_send_def)
      then show ?thesis using ap True False by (simp add: Let_def)
    next
      case acc: True
      then obtain n where n: "prt = Whole n" "0 < n" "n \<le> 65535"
        by (cases prt) auto
      then have "udpClient_send msg prt a s = (None, effect (UdpSend msg n a) s)"
        by (simp add: udpClient_send_def)
      then show ?thesis
        using ap True acc n Cons [of "effect (UdpSend msg n a) s"]
        by (simp add: Let_def effect_def)
    qed
  qed
qed

lemma on_data_forwards:
  assumes "configMap ''osc.proxy'' = Some proxyPort" and "proxyPort \<noteq> []"
  shows "on_data configMap msg s = (bad_port proxyPort, s\<lparr>trace := trace s @ forwards msg proxyPort\<rparr>)"
  unfolding on_data_def forwards_def proxy_targets_def bad_port_def
  using assms by (simp add: proxy_loop_forwards Let_def)

lemma takeWhile_all: "list_all P xs \<Longrightarrow> takeWhile P xs = xs"
  by (induction xs) auto



subsection \<open>A written-out proxy configuration\<close>

text \<open>
  \<^verbatim>\<open>parseInt\<close> reads a decimal numeral back, \<^verbatim>\<open>split\<close> finds the pieces that were joined,
  \<^verbatim>\<open>trim\<close> leaves a written-out destination as it is, and \<^verbatim>\<open>parsePort\<close> returns its
  host and port.
\<close>

declare decimal.simps [simp del]

lemma is_dec_not_special:
  assumes "is_dec c"
  shows "\<not> is_ws c" "c \<noteq> of_char CHR ''-''" "c \<noteq> of_char CHR ''+''" "c \<noteq> of_char CHR ''x''"
        "c \<noteq> of_char CHR ''X''" "c \<noteq> of_char CHR '':''" "c \<noteq> of_char CHR '',''"
  using assms by (auto simp: is_dec_def is_ws_def)

lemma digit_of_is_dec: "is_dec c \<Longrightarrow> digit_of 10 c = Some (c - 48)"
  by (auto simp: is_dec_def digit_of_def Let_def)

lemma decimal_is_dec: "c \<in> set (decimal n) \<Longrightarrow> is_dec c"
proof (induction n rule: decimal.induct)
  case (1 n)
  show ?case
  proof (cases "n < 10")
    case True
    with "1.prems" show ?thesis by (subst (asm) decimal.simps) (auto simp: is_dec_def)
  next
    case False
    with "1.prems" have "c \<in> set (decimal (n div 10)) \<or> c = 48 + n mod 10"
      by (subst (asm) decimal.simps) auto
    then show ?thesis
    proof
      assume "c \<in> set (decimal (n div 10))"
      with "1.IH" False show ?thesis by simp
    next
      assume "c = 48 + n mod 10"
      then show ?thesis by (simp add: is_dec_def)
    qed
  qed
qed

lemma decimal_not_empty: "decimal n \<noteq> []"
  by (subst decimal.simps) simp

lemma digits_value_append:
  "\<forall>c \<in> set xs. is_dec c \<Longrightarrow>
   digits_value 10 acc seen (xs @ ys)
     = digits_value 10 (foldl (\<lambda>a c. a * 10 + (c - 48)) acc xs) (seen \<or> xs \<noteq> []) ys"
  by (induction xs arbitrary: acc seen) (simp_all add: digit_of_is_dec)

lemma foldl_decimal:
  "foldl (\<lambda>a c. a * 10 + (c - 48)) acc (decimal n) = acc * 10 ^ length (decimal n) + n"
proof (induction n arbitrary: acc rule: decimal.induct)
  case (1 n)
  show ?case
  proof (cases "n < 10")
    case True
    then show ?thesis by (subst (1 2) decimal.simps) simp
  next
    case False
    have "foldl (\<lambda>a c. a * 10 + (c - 48)) acc (decimal n)
            = (acc * 10 ^ length (decimal (n div 10)) + n div 10) * 10 + n mod 10"
      using False "1.IH" [of acc] by (subst decimal.simps) simp
    also have "\<dots> = acc * 10 ^ length (decimal n) + n"
      using False by (subst (2) decimal.simps) (simp add: algebra_simps)
    finally show ?thesis .
  qed
qed

lemma digits_value_decimal: "digits_value 10 0 False (decimal n) = Some n"
  using digits_value_append [of "decimal n" 0 False "[]"] decimal_is_dec
  by (simp add: foldl_decimal decimal_not_empty)

lemma js_parseInt_decimal: "n < 2 ^ 53 \<Longrightarrow> js_parseInt (decimal n) = Whole (int n)"
proof -
  assume small: "n < 2 ^ 53"
  obtain c cs where d: "decimal n = c # cs"
    using decimal_not_empty by (cases "decimal n") auto
  have c: "is_dec c" using decimal_is_dec [of c n] d by simp
  have cs: "cs \<noteq> [] \<Longrightarrow> is_dec (hd cs)" using decimal_is_dec [of "hd cs" n] d by (cases cs) auto
  have nohex: "(case c # cs of a # b # r \<Rightarrow> a = of_char CHR ''0'' \<and> (b = of_char CHR ''x'' \<or> b = of_char CHR ''X'') | _ \<Rightarrow> False) = False"
    using cs is_dec_not_special(4,5) by (cases cs) auto
  show ?thesis
    unfolding js_parseInt_def d [symmetric] Let_def
    using c is_dec_not_special [OF c] nohex digits_value_decimal [of n] small
    by (simp add: d)
qed

lemma js_split_none: "sep \<notin> set xs \<Longrightarrow> js_split sep xs = [xs]"
  by (induction xs) auto

lemma js_split_first:
  "sep \<notin> set xs \<Longrightarrow> js_split sep (xs @ sep # ys) = xs # js_split sep ys"
  by (induction xs) auto

lemma js_trim_id:
  assumes "xs \<noteq> []" and "\<not> is_ws (hd xs)" and "\<not> is_ws (last xs)"
  shows "js_trim xs = xs"
proof -
  have a: "dropWhile is_ws xs = xs" using assms(1,2) by (cases xs) auto
  have "rev xs \<noteq> []" and "\<not> is_ws (hd (rev xs))"
    using assms(1,3) by (simp_all add: hd_rev)
  then have b: "dropWhile is_ws (rev xs) = rev xs" by (cases "rev xs") auto
  show ?thesis by (simp add: js_trim_def a b)
qed

lemma decimal_no_sep: "of_char CHR '':'' \<notin> set (decimal n)" "of_char CHR '','' \<notin> set (decimal n)"
  using decimal_is_dec is_dec_not_special(6,7) by blast+

lemma js_trim_proxy_entry:
  assumes "plain_host h"
  shows "js_trim (proxy_entry (h, n)) = proxy_entry (h, n)"
proof (rule js_trim_id)
  show "proxy_entry (h, n) \<noteq> []" by (simp add: proxy_entry_def units_def)
  show "\<not> is_ws (hd (proxy_entry (h, n)))"
    using assms by (cases h) (auto simp: proxy_entry_def plain_host_def is_ws_def units_def)
  have "last (proxy_entry (h, n)) = last (decimal n)"
    by (simp add: proxy_entry_def decimal_not_empty)
  moreover have "is_dec (last (decimal n))"
    using decimal_is_dec [of "last (decimal n)" n] decimal_not_empty [of n] by simp
  ultimately show "\<not> is_ws (last (proxy_entry (h, n)))"
    using is_dec_not_special(1) by simp
qed

lemma parsePort_proxy_entry:
  assumes "plain_host h" and "0 < n" and "n < 2 ^ 53"
  shows "parsePort (Some (proxy_entry (h, n))) d (Whole 0) = (h, Whole (int n))"
proof -
  have i: "js_includes (of_char CHR '':'') (proxy_entry (h, n))"
    by (simp add: js_includes_def proxy_entry_def units_def)
  have "js_split (of_char CHR '':'') (h @ of_char CHR '':'' # decimal n)
          = h # js_split (of_char CHR '':'') (decimal n)"
    using assms(1) by (intro js_split_first) (simp add: plain_host_def)
  then have s: "js_split (of_char CHR '':'') (proxy_entry (h, n)) = [h, decimal n]"
    using js_split_none [OF decimal_no_sep(1), of n] by (simp add: proxy_entry_def units_def)
  show ?thesis
    using assms(2) i s by (simp add: parsePort_def js_parseInt_decimal [OF assms(3)] Let_def)
qed

lemma proxy_entry_no_comma: "plain_host h \<Longrightarrow> of_char CHR '','' \<notin> set (proxy_entry (h, n))"
  using decimal_no_sep(2) [of n] by (simp add: proxy_entry_def plain_host_def units_def)

lemma js_split_join:
  assumes "es \<noteq> []" and "\<forall>e \<in> set es. of_char CHR '','' \<notin> set e"
  shows "js_split (of_char CHR '','') (join_entries es) = es"
  using assms
proof (induction es rule: join_entries.induct)
  case 1
  then show ?case by simp
next
  case (2 e)
  then show ?case by (simp add: js_split_none)
next
  case (3 e e' es)
  have "js_split (of_char CHR '','') (e @ of_char CHR '','' # join_entries (e' # es))
          = e # js_split (of_char CHR '','') (join_entries (e' # es))"
    using "3.prems"(2) by (intro js_split_first) simp
  then show ?case using 3 by (simp add: units_def)
qed

lemma join_entries_not_empty: "es \<noteq> [] \<Longrightarrow> [] \<notin> set es \<Longrightarrow> join_entries es \<noteq> []"
  by (induction es rule: join_entries.induct) auto

lemma proxy_targets_join:
  assumes "ts \<noteq> []" and "\<forall>t \<in> set ts. plain_host (fst t) \<and> 0 < snd t \<and> snd t \<le> 65535"
  shows "proxy_targets (join_entries (map proxy_entry ts)) = map (\<lambda>t. (fst t, Whole (int (snd t)))) ts"
proof -
  have c: "\<forall>e \<in> set (map proxy_entry ts). of_char CHR '','' \<notin> set e"
    using assms(2) proxy_entry_no_comma by (auto simp: split_paired_all)
  have s: "js_split (of_char CHR '','') (join_entries (map proxy_entry ts)) = map proxy_entry ts"
    using assms(1) c by (intro js_split_join) simp_all
  have small: "\<forall>t \<in> set ts. snd t < 2 ^ 53"
  proof
    fix t assume "t \<in> set ts"
    with assms(2) have "snd t \<le> 65535" by blast
    then show "snd t < 2 ^ 53" by simp
  qed
  have p: "\<forall>t \<in> set ts. parsePort (Some (js_trim (proxy_entry t))) (units ''127.0.0.1'') (Whole 0)
                            = (fst t, Whole (int (snd t)))"
    using assms(2) small by (auto simp: js_trim_proxy_entry parsePort_proxy_entry)
  have m: "map (\<lambda>e. parsePort (Some (js_trim e)) (units ''127.0.0.1'') (Whole 0)) (map proxy_entry ts)
          = map (\<lambda>t. (fst t, Whole (int (snd t)))) ts"
    using p by simp
  have f: "filter (\<lambda>(a, p). positive p) (map (\<lambda>t. (fst t, Whole (int (snd t)))) ts)
          = map (\<lambda>t. (fst t, Whole (int (snd t)))) ts"
    using assms(2) by (auto simp: filter_id_conv)
  show ?thesis unfolding proxy_targets_def s m f ..
qed

text \<open>
  Extra X3. When \<^verbatim>\<open>osc.proxy\<close> is a list of destinations written as above, with plain
  hosts and ports from 1 to 65535, the handler of \<^verbatim>\<open>'data'\<close> sends the raw bytes to
  exactly these destinations, in their order, and throws nothing.
\<close>

theorem configured_destinations:
  assumes "ts \<noteq> []" and "\<forall>t \<in> set ts. plain_host (fst t) \<and> 0 < snd t \<and> snd t \<le> 65535"
      and "configMap ''osc.proxy'' = Some (join_entries (map proxy_entry ts))"
  shows "on_data configMap msg s
           = (None, s\<lparr>trace := trace s @ map (\<lambda>t. UdpSend msg (int (snd t)) (fst t)) ts\<rparr>)"
proof -
  have "[] \<notin> set (map proxy_entry ts)" by (auto simp: proxy_entry_def units_def)
  then have n: "join_entries (map proxy_entry ts) \<noteq> []"
    using assms(1) by (intro join_entries_not_empty) simp_all
  have d: "on_data configMap msg s
          = (bad_port (join_entries (map proxy_entry ts)),
             s\<lparr>trace := trace s @ forwards msg (join_entries (map proxy_entry ts))\<rparr>)"
    using assms(3) n by (rule on_data_forwards)
  have a: "list_all accepted (map (\<lambda>t. (fst t, Whole (int (snd t)))) ts)"
    using assms(2) by (auto simp: list_all_iff)
  show ?thesis
    unfolding d bad_port_def forwards_def proxy_targets_join [OF assms(1,2)]
    using a by (simp add: takeWhile_all comp_def)
qed

theorem configured_destinations_witness:
  "join_entries (map proxy_entry [(units ''10.0.0.5'', 9003), (units ''localhost'', 9002)])
     = units ''10.0.0.5:9003,localhost:9002''
   \<and> plain_host (units ''10.0.0.5'') \<and> plain_host (units ''localhost'')
   \<and> on_data [''osc.proxy'' \<mapsto> units ''10.0.0.5:9003,localhost:9002''] ''raw'' (fresh :: int OscConnection)
       = (None, fresh\<lparr>trace := [UdpSend ''raw'' 9003 (units ''10.0.0.5''),
                                 UdpSend ''raw'' 9002 (units ''localhost'')]\<rparr>)"
proof -
  have j: "join_entries (map proxy_entry [(units ''10.0.0.5'', 9003), (units ''localhost'', 9002)])
             = units ''10.0.0.5:9003,localhost:9002''"
    by (simp add: proxy_entry_def decimal.simps units_def)
  have h: "plain_host (units ''10.0.0.5'')" "plain_host (units ''localhost'')"
    by (simp_all add: plain_host_def is_ws_def units_def)
  have a: "\<forall>t \<in> set [(units ''10.0.0.5'', 9003), (units ''localhost'', 9002::nat)].
             plain_host (fst t) \<and> 0 < snd t \<and> snd t \<le> 65535"
    using h by simp
  have c: "[''osc.proxy'' \<mapsto> units ''10.0.0.5:9003,localhost:9002''] ''osc.proxy''
             = Some (join_entries (map proxy_entry [(units ''10.0.0.5'', 9003), (units ''localhost'', 9002)]))"
    unfolding j by simp
  have t: "trace (fresh :: int OscConnection) = []" by (simp add: fresh_def)
  have "on_data [''osc.proxy'' \<mapsto> units ''10.0.0.5:9003,localhost:9002''] ''raw'' (fresh :: int OscConnection)
       = (None, fresh\<lparr>trace := trace (fresh :: int OscConnection)
                  @ map (\<lambda>t. UdpSend ''raw'' (int (snd t)) (fst t))
                      [(units ''10.0.0.5'', 9003), (units ''localhost'', 9002)]\<rparr>)"
    using configured_destinations
            [of "[(units ''10.0.0.5'', 9003), (units ''localhost'', 9002)]"
                "[''osc.proxy'' \<mapsto> units ''10.0.0.5:9003,localhost:9002'']" "''raw''"
                "fresh :: int OscConnection"] a c
    by blast
  then have "on_data [''osc.proxy'' \<mapsto> units ''10.0.0.5:9003,localhost:9002''] ''raw'' (fresh :: int OscConnection)
       = (None, fresh\<lparr>trace := [UdpSend ''raw'' 9003 (units ''10.0.0.5''),
                                 UdpSend ''raw'' 9002 (units ''localhost'')]\<rparr>)"
    unfolding t by simp
  with j h show ?thesis by (intro conjI)
qed

subsection \<open>Failures of opening\<close>

text \<open>
  The pending retry timers change in \<^verbatim>\<open>delayRetry\<close> only: every other handler and
  continuation leaves them as they are, or removes the one that fired.
\<close>

lemma retry_timers_frame [simp]:
  "retry_timers (s\<lparr>entries := en\<rparr>) = retry_timers s"
  "retry_timers (s\<lparr>trace := tr\<rparr>) = retry_timers s"
  "retry_timers (s\<lparr>suspended := su\<rparr>) = retry_timers s"
  "retry_timers (s\<lparr>waitingForBulk := w\<rparr>) = retry_timers s"
  "retry_timers (s\<lparr>updateBulkAttempt := u\<rparr>) = retry_timers s"
  "retry_timers (s\<lparr>nextObject := n\<rparr>) = retry_timers s"
  "retry_timers (s\<lparr>nextTimer := n\<rparr>) = retry_timers s"
  "retry_timers (s\<lparr>receivedOne := r\<rparr>) = retry_timers s"
  "retry_timers (s\<lparr>socketopen := b\<rparr>) = retry_timers s"
  "retry_timers (s\<lparr>oscSocket := so\<rparr>) = retry_timers s"
  "retry_timers (s\<lparr>oscQuery := q\<rparr>) = retry_timers s"
  "retry_timers (s\<lparr>port := p\<rparr>) = retry_timers s"
  "retry_timers (s\<lparr>lastPacket := n\<rparr>) = retry_timers s"
  "retry_timers (s\<lparr>lastReceiveTime := n\<rparr>) = retry_timers s"
  "retry_timers (s\<lparr>recentlyRcvdOscCmds := n\<rparr>) = retry_timers s"
  by (simp_all add: retry_timers_def)

lemma retry_timers_setTimeout:
  "k \<noteq> RetryOpenSocket \<Longrightarrow> retry_timers (snd (setTimeout k ms s)) = retry_timers s"
  by (simp add: retry_timers_def setTimeout_def)

lemma retry_timers_cancel:
  "retry_timers s = [] \<Longrightarrow> retry_timers (cancel_timer i s) = []"
  by (auto simp: retry_timers_def cancel_timer_def filter_empty_conv)

lemma retry_timers_updateBulk_request:
  "retry_timers (updateBulk_request tok s) = retry_timers s"
  using retry_timers_setTimeout [of "BulkTimeout tok" 10000 "effect (GetBulk tok) s"]
  by (simp add: updateBulk_request_def Let_def suspend_def effect_def split_beta)

lemma retry_timers_updateBulk: "retry_timers (updateBulk s) = retry_timers s"
  by (simp add: updateBulk_def Let_def retry_timers_updateBulk_request)

lemma retry_timers_updateBulk_catch: "retry_timers (updateBulk_catch tok e s) = retry_timers s"
  using retry_timers_setTimeout
          [of "BulkBackoff tok" 100 "logger_log [LStr ''Error fetching bulk info: '', LErr e] s"]
  by (simp add: updateBulk_catch_def Let_def logger_log_def effect_def split_beta)

lemma retry_timers_receivedParamValue:
  "retry_timers (receivedParamValue q v b s) = retry_timers s"
proof -
  obtain en tr where "receivedParamValue q v b s = s\<lparr>entries := en, trace := tr\<rparr>"
    using receivedParamValue_shape by blast
  then show ?thesis by simp
qed

lemma retry_timers_updateBulk_nodes: "retry_timers (updateBulk_nodes nodes s) = retry_timers s"
proof -
  obtain en tr where "updateBulk_nodes nodes s = s\<lparr>entries := en, trace := tr\<rparr>"
    using updateBulk_nodes_shape by blast
  then show ?thesis by simp
qed

lemma retry_timers_updateBulk_settled:
  "retry_timers (updateBulk_settled tok outcome s) = retry_timers s"
  by (cases outcome)
     (auto simp: updateBulk_settled_def Let_def retry_timers_updateBulk_catch
        retry_timers_updateBulk_nodes split: option.splits)

lemma retry_timers_updateBulk_retry: "retry_timers (updateBulk_retry tok s) = retry_timers s"
  by (simp add: updateBulk_retry_def retry_timers_updateBulk_request)

lemma retry_timers_on_message:
  "retry_timers (snd (on_message A t1 t2 rcv m rinfo s)) = retry_timers s"
  by (simp add: on_message_def Let_def retry_timers_updateBulk retry_timers_receivedParamValue
        clearValues_def emit_def effect_def logger_log_def)

lemma retry_timers_on_data: "retry_timers (snd (on_data cfg msg s)) = retry_timers s"
proof -
  obtain tr where "snd (on_data cfg msg s) = s\<lparr>trace := tr\<rparr>"
    using on_data_shape by blast
  then show ?thesis by simp
qed

lemma retry_timers_openSocket: "retry_timers (openSocket s) = retry_timers s"
  by (simp add: openSocket_def suspend_def effect_def)

lemma retry_timers_openSocket_port: "retry_timers (openSocket_port r s) = retry_timers s"
  by (cases r)
     (simp_all add: openSocket_port_def openSocketUnsafe_port_def openSocket_catch_def error_def
        Let_def suspend_def effect_def logger_log_def)

lemma retry_timers_openSocket_started: "retry_timers (openSocket_started p r x s) = retry_timers s"
  by (cases r; cases x)
     (simp_all add: openSocket_started_def openSocketUnsafe_started_def openSocket_catch_def
        error_def Let_def suspend_def effect_def logger_log_def)

lemma retry_timers_timer_fired:
  "retry_timers s = [] \<Longrightarrow> retry_timers (timer_fired i s) = []"
  by (auto simp: timer_fired_def activity_tick_def logger_log_def effect_def retry_timers_cancel
        retry_timers_openSocket retry_timers_updateBulk_retry retry_timers_updateBulk_settled
        resume_def split: option.splits timer_kind.splits)

lemma retry_timers_step:
  "retry_timers s = [] \<Longrightarrow> e \<noteq> CallDelayRetry \<Longrightarrow> retry_timers (step e s) = []"
  by (cases e)
     (auto simp: step_def resume_def retry_timers_openSocket_port retry_timers_openSocket_started
        retry_timers_updateBulk_settled retry_timers_timer_fired on_ready_def on_error_def
        retry_timers_on_data send_def clearDeltas_def logger_log_def effect_def
        split_beta Let_def retry_timers_on_message split: option.splits)

lemma retry_timers_run:
  "retry_timers s = [] \<Longrightarrow> CallDelayRetry \<notin> set es \<Longrightarrow> retry_timers (run es s) = []"
proof (induction es arbitrary: s)
  case Nil
  then show ?case by simp
next
  case (Cons e es)
  from Cons.prems have "e \<noteq> CallDelayRetry" and rest: "CallDelayRetry \<notin> set es" by auto
  with Cons.prems(1) have "retry_timers (step e s) = []" by (simp add: retry_timers_step)
  with rest show ?case using Cons.IH by simp
qed

lemma retry_timers_constructor: "retry_timers constructor = []"
  by (simp add: constructor_def fresh_def openSocket_def suspend_def effect_def setTimeout_def
        retry_timers_def Let_def)

text \<open>
  Claim C4, as amended. When a stretch of \<^verbatim>\<open>openSocketUnsafe\<close> raises (the port
  allocation or \<^verbatim>\<open>oscQuery.start()\<close> rejects, or \<^verbatim>\<open>oscSocket.open()\<close> throws), the
  \<^verbatim>\<open>catch\<close> of \<^verbatim>\<open>openSocket\<close> logs the error and that is all: the timers and
  \<^verbatim>\<open>retryTimeout\<close> are as before, so no retry is scheduled. The handler of the socket's
  \<^verbatim>\<open>'error'\<close> does nothing. Only a call of \<^verbatim>\<open>delayRetry\<close> schedules a retry: after
  the constructor and any sequence of events with no such call among them, no retry
  timer is pending.
\<close>

theorem openSocket_failure_is_only_logged:
  fixes es :: "('m::{plus,minus,abs,zero}) event list"
  shows
  "(fst (openSocketUnsafe_port r s) = Some e \<longrightarrow>
      openSocket_port r s = s\<lparr>trace := trace s @ [Log [LStr ''<-'', LStr ''ERROR'', LErr e]]\<rparr>)
   \<and> (fst (openSocketUnsafe_started p r' x s) = Some e \<longrightarrow>
        openSocket_started p r' x s
          = (snd (openSocketUnsafe_started p r' x s))
              \<lparr>trace := trace (snd (openSocketUnsafe_started p r' x s))
                          @ [Log [LStr ''<-'', LStr ''ERROR'', LErr e]]\<rparr>)
   \<and> timers (openSocket_port r s) = timers s
   \<and> retryTimeout (openSocket_port r s) = retryTimeout s
   \<and> timers (openSocket_started p r' x s) = timers s
   \<and> retryTimeout (openSocket_started p r' x s) = retryTimeout s
   \<and> on_error e s = s
   \<and> (CallDelayRetry \<notin> set es \<longrightarrow> retry_timers (run es constructor) = [])"
proof -
  have "CallDelayRetry \<notin> set es \<longrightarrow> retry_timers (run es constructor) = []"
    using retry_timers_run [OF retry_timers_constructor] by blast
  moreover have
    "(fst (openSocketUnsafe_port r s) = Some e \<longrightarrow>
      openSocket_port r s = s\<lparr>trace := trace s @ [Log [LStr ''<-'', LStr ''ERROR'', LErr e]]\<rparr>)
   \<and> (fst (openSocketUnsafe_started p r' x s) = Some e \<longrightarrow>
        openSocket_started p r' x s
          = (snd (openSocketUnsafe_started p r' x s))
              \<lparr>trace := trace (snd (openSocketUnsafe_started p r' x s))
                          @ [Log [LStr ''<-'', LStr ''ERROR'', LErr e]]\<rparr>)
   \<and> timers (openSocket_port r s) = timers s
   \<and> retryTimeout (openSocket_port r s) = retryTimeout s
   \<and> timers (openSocket_started p r' x s) = timers s
   \<and> retryTimeout (openSocket_started p r' x s) = retryTimeout s
   \<and> on_error e s = s"
    by (cases r; cases r'; cases x)
       (simp_all add: openSocket_port_def openSocketUnsafe_port_def openSocket_started_def
          openSocketUnsafe_started_def openSocket_catch_def error_def Let_def suspend_def
          effect_def logger_log_def on_error_def)
  ultimately show ?thesis by blast
qed

theorem openSocket_failure_is_only_logged_witness:
  "fst (openSocketUnsafe_port (Inl (Error ''EADDRINUSE'')) (fresh :: int OscConnection)) = Some (Error ''EADDRINUSE'')
   \<and> openSocket_port (Inl (Error ''EADDRINUSE'')) (fresh :: int OscConnection)
       = fresh\<lparr>trace := [Log [LStr ''<-'', LStr ''ERROR'', LErr (Error ''EADDRINUSE'')]]\<rparr>
   \<and> fst (openSocketUnsafe_started 33776 (Inl (Error ''mdns'')) None (fresh :: int OscConnection)) = Some (Error ''mdns'')
   \<and> timers (openSocket_started 33776 (Inl (Error ''mdns'')) None (fresh :: int OscConnection)) = []
   \<and> CallDelayRetry \<notin> set [PortSettled (Inr 33776), StartSettled 33776 (Inr 33776) (Some (Error ''bind'')),
                              SocketError (Error ''bind''), TimerFired 0 :: int event]
   \<and> retry_timers (run [PortSettled (Inr 33776), StartSettled 33776 (Inr 33776) (Some (Error ''bind'')),
                         SocketError (Error ''bind''), TimerFired 0]
                     (constructor :: int OscConnection)) = []"
proof -
  let ?es = "[PortSettled (Inr 33776), StartSettled 33776 (Inr 33776) (Some (Error ''bind'')),
              SocketError (Error ''bind''), TimerFired 0 :: int event]"
  have a: "fst (openSocketUnsafe_port (Inl (Error ''EADDRINUSE'')) (fresh :: int OscConnection)) = Some (Error ''EADDRINUSE'')"
    by (simp add: openSocketUnsafe_port_def)
  have b: "fst (openSocketUnsafe_started 33776 (Inl (Error ''mdns'')) None (fresh :: int OscConnection)) = Some (Error ''mdns'')"
    by (simp add: openSocketUnsafe_started_def)
  have t: "trace (fresh :: int OscConnection) = []" "timers (fresh :: int OscConnection) = []"
    by (simp_all add: fresh_def)
  have n: "CallDelayRetry \<notin> set ?es" by simp
  note th = openSocket_failure_is_only_logged
         [of "Inl (Error ''EADDRINUSE'')" "fresh :: int OscConnection" "Error ''EADDRINUSE''"
             33776 "Inl (Error ''mdns'')" None ?es]
  have c: "openSocket_port (Inl (Error ''EADDRINUSE'')) (fresh :: int OscConnection)
       = fresh\<lparr>trace := [Log [LStr ''<-'', LStr ''ERROR'', LErr (Error ''EADDRINUSE'')]]\<rparr>"
    using th a t by simp
  have d: "timers (openSocket_started 33776 (Inl (Error ''mdns'')) None (fresh :: int OscConnection)) = []"
    using th t by simp
  have e: "retry_timers (run ?es (constructor :: int OscConnection)) = []"
    using th n by blast
  from a c b d n e show ?thesis by (intro conjI)
qed

text \<open>
  Claim C4, as stated, fails: after the constructor, let the port allocation give a
  port and \<^verbatim>\<open>oscQuery.start()\<close> reject. \<^verbatim>\<open>openSocketUnsafe\<close> raises, and afterwards no
  retry timer is pending (the only timer is the activity interval) and nothing waits
  to be resumed. It is the same when the port allocation itself rejects.
\<close>

theorem openSocket_failure_schedules_no_retry:
  "fst (openSocketUnsafe_started 33776 (Inl (Error ''EADDRINUSE'')) None
          (resume (AwaitStart 33776) (step (PortSettled (Inr 33776)) (constructor :: int OscConnection))))
     = Some (Error ''EADDRINUSE'')
   \<and> retry_timers (run [PortSettled (Inr 33776), StartSettled 33776 (Inl (Error ''EADDRINUSE'')) None]
                     (constructor :: int OscConnection)) = []
   \<and> timers (run [PortSettled (Inr 33776), StartSettled 33776 (Inl (Error ''EADDRINUSE'')) None]
                (constructor :: int OscConnection))
        = [(0, 15000, ActivityInterval)]
   \<and> suspended (run [PortSettled (Inr 33776), StartSettled 33776 (Inl (Error ''EADDRINUSE'')) None]
                   (constructor :: int OscConnection)) = []
   \<and> retry_timers (step (PortSettled (Inl (Error ''EADDRINUSE''))) (constructor :: int OscConnection)) = []"
  by (simp add: constructor_def fresh_def openSocket_def suspend_def effect_def setTimeout_def
        step_def Let_def resume_def retry_timers_def error_def
        openSocket_port_def openSocketUnsafe_port_def openSocket_catch_def logger_log_def
        openSocket_started_def openSocketUnsafe_started_def)

end
